theory Spec2Isabelle
  imports Main
begin

section \<open>JavaScript values and the built-ins the components call\<close>

text \<open>
  The three components are TypeScript/React code. Their data is what a JSON-speaking
  backend delivers, so a run-time value is one of the following. \<open>JNum\<close> holds an
  integer (the numbers JavaScript holds exactly up to \<open>2^53\<close>); fractions, NaN and the
  infinities are outside the model, and no function of the components computes with a
  number. An object is its list of own properties in insertion order; keys are meant to
  be distinct and a lookup takes the first entry.

  Strings are Isabelle strings, read as ASCII text. Case mapping is the ASCII one: a
  character outside \<open>a-z\<close> and \<open>A-Z\<close> is its own upper and lower case.
\<close>

datatype jsval =
    JUndefined
  | JNull
  | JBool bool
  | JNum int
  | JStr string
  | JArr "jsval list"
  | JObj "(string \<times> jsval) list"

text \<open>A thrown value: an instance of \<open>Error\<close> (or of a subclass such as
  \<open>SyntaxError\<close>) with its message, or any other value.\<close>

datatype thrown = ErrorInstance string | ThrownValue jsval

fun typeof :: "jsval \<Rightarrow> string" where
  "typeof JUndefined = ''undefined''"
| "typeof JNull = ''object''"
| "typeof (JBool b) = ''boolean''"
| "typeof (JNum n) = ''number''"
| "typeof (JStr s) = ''string''"
| "typeof (JArr xs) = ''object''"
| "typeof (JObj kvs) = ''object''"

text \<open>Truthiness, as \<open>if (v)\<close>, \<open>v && ...\<close>, \<open>v || ...\<close> and \<open>v ? ... : ...\<close> test it.\<close>

fun truthy :: "jsval \<Rightarrow> bool" where
  "truthy JUndefined = False"
| "truthy JNull = False"
| "truthy (JBool b) = b"
| "truthy (JNum n) = (n \<noteq> 0)"
| "truthy (JStr s) = (s \<noteq> [])"
| "truthy (JArr xs) = True"
| "truthy (JObj kvs) = True"

definition toUpperCaseChar :: "char \<Rightarrow> char" where
  "toUpperCaseChar c =
     (let n = (of_char c :: nat) in if 97 \<le> n \<and> n \<le> 122 then char_of (n - 32) else c)"

definition toLowerCaseChar :: "char \<Rightarrow> char" where
  "toLowerCaseChar c =
     (let n = (of_char c :: nat) in if 65 \<le> n \<and> n \<le> 90 then char_of (n + 32) else c)"

definition toUpperCase :: "string \<Rightarrow> string" where
  "toUpperCase s = map toUpperCaseChar s"

definition toLowerCase :: "string \<Rightarrow> string" where
  "toLowerCase s = map toLowerCaseChar s"

text \<open>\<open>s.includes(sub)\<close>: \<open>sub\<close> occurs in \<open>s\<close> as a contiguous run of characters
  (the empty string occurs in every string).\<close>

fun includes_str :: "string \<Rightarrow> string \<Rightarrow> bool" where
  "includes_str [] sub = (sub = [])"
| "includes_str (c # cs) sub = (take (length sub) (c # cs) = sub \<or> includes_str cs sub)"

text \<open>\<open>try { body } catch { handler }\<close> on computations that return a value or throw.\<close>

definition try_catch :: "thrown + 'a \<Rightarrow> (thrown \<Rightarrow> thrown + 'a) \<Rightarrow> thrown + 'a" where
  "try_catch body handler = (case body of Inl e \<Rightarrow> handler e | Inr v \<Rightarrow> Inr v)"

text \<open>Decimal digits of a natural number, as JavaScript prints an array index or an
  integer.\<close>

fun show_nat :: "nat \<Rightarrow> string" where
  "show_nat n =
     (if n < 10 then [char_of (48 + n)]
      else show_nat (n div 10) @ [char_of (48 + n mod 10)])"

declare show_nat.simps [simp del]

definition show_int :: "int \<Rightarrow> string" where
  "show_int i = (if i < 0 then CHR ''-'' # show_nat (nat (- i)) else show_nat (nat i))"

text \<open>
  Own properties of an object or an array, for the \<open>in\<close> operator and a property read.
  What the prototypes add (\<open>toString\<close>, \<open>constructor\<close>, ...) is not modelled: the
  source asks for \<open>message\<close> only, which no prototype of a plain object or an array has.
  The source reads a property of a value only after \<open>typeof v === 'object'\<close> and a
  truthiness test, so the other values have no case of their own.
\<close>

fun own_properties :: "jsval \<Rightarrow> (string \<times> jsval) list" where
  "own_properties (JObj kvs) = kvs"
| "own_properties (JArr xs) =
     zip (map show_nat [0..<length xs]) xs @ [(''length'', JNum (int (length xs)))]"
| "own_properties v = []"

definition in_operator :: "string \<Rightarrow> jsval \<Rightarrow> bool" where
  "in_operator key v = (key \<in> set (map fst (own_properties v)))"

definition get_property :: "jsval \<Rightarrow> string \<Rightarrow> jsval" where
  "get_property v key =
     (case map_of (own_properties v) key of None \<Rightarrow> JUndefined | Some x \<Rightarrow> x)"


section \<open>The server record\<close>

text \<open>
  Modelled from the spec: the tool descriptor, whose declaration lives in
  \<open>@/types/mcp\<close>, which is not among the sources. The name and the description are
  texts; the schema is a structured value or a string.
\<close>

record tool =
  tool_name :: string
  tool_description :: string
  tool_schema :: jsval

text \<open>A value for which \<open>Array.isArray\<close> is false: what \<open>server.tools\<close> may hold
  when it is not an array of tool descriptors.\<close>

datatype non_array =
    NUndefined
  | NNull
  | NBool bool
  | NNum int
  | NStr string
  | NObj "(string \<times> jsval) list"

datatype tools_value = ToolArray "tool list" | NotAnArray non_array

text \<open>
  Modelled from the spec: the record \<open>McpServer\<close>, declared in \<open>@/types/mcp\<close> as
  well. The fields are the ones the three components read, typed as the spec's data
  model and the components' own guards (\<open>||\<close>, \<open>?.\<close>, \<open>typeof\<close>,
  \<open>Array.isArray\<close>) say: an optional field is an \<open>option\<close> (\<open>None\<close> for null or
  undefined), \<open>args\<close> is a string or any other JSON value, and \<open>tools\<close> is an
  array of tool descriptors or some value that is not an array.
\<close>

record server =
  server_name :: string
  server_description :: "string option"
  server_transport :: string
  server_url :: "string option"
  server_command :: "string option"
  server_args :: jsval
  server_requiresOauth2 :: "bool option"
  server_isPublic :: "bool option"
  server_connectionStatus :: "string option"
  server_tools :: tools_value
  server_headers :: jsval


section \<open>ToolsExplorer\<close>

datatype filter_status = FilterAll | FilterAvailable | FilterUnavailable

datatype view_mode = Grid | ListView

record explorer_state =
  searchTerm :: string
  viewMode :: view_mode
  expandedTool :: "string option"
  filterStatus :: filter_status

text \<open>\<open>useState\<close> initial values.\<close>

definition explorer_init :: explorer_state where
  "explorer_init =
     \<lparr>searchTerm = [], viewMode = Grid, expandedTool = None, filterStatus = FilterAll\<rparr>"

text \<open>\<open>const tools = Array.isArray(server.tools) ? server.tools : [];\<close>\<close>

definition tools_of :: "server \<Rightarrow> tool list" where
  "tools_of srv =
     (case server_tools srv of ToolArray ts \<Rightarrow> ts | NotAnArray v \<Rightarrow> [])"

definition matchesSearch :: "string \<Rightarrow> tool \<Rightarrow> bool" where
  "matchesSearch term t =
     (includes_str (toLowerCase (tool_name t)) (toLowerCase term) \<or>
      includes_str (toLowerCase (tool_description t)) (toLowerCase term))"

definition matchesFilter :: "filter_status \<Rightarrow> bool" where
  "matchesFilter fs = (fs = FilterAll \<or> fs = FilterAvailable)"

definition filteredTools :: "tool list \<Rightarrow> string \<Rightarrow> filter_status \<Rightarrow> tool list" where
  "filteredTools tools term fs =
     filter (\<lambda>t. matchesSearch term t \<and> matchesFilter fs) tools"

definition toggleToolExpansion :: "string \<Rightarrow> explorer_state \<Rightarrow> explorer_state" where
  "toggleToolExpansion toolName st =
     st\<lparr>expandedTool := (if expandedTool st = Some toolName then None else Some toolName)\<rparr>"

text \<open>
  \<open>parseSchema\<close>. The platform's \<open>JSON.parse\<close> is a parameter: it returns the parsed
  value or throws. The \<open>try\<close>/\<open>catch\<close> around the call is \<open>try_catch\<close>.
\<close>

definition parseSchema :: "(string \<Rightarrow> thrown + jsval) \<Rightarrow> jsval \<Rightarrow> thrown + jsval" where
  "parseSchema JSON_parse schema =
     (if typeof schema = ''object'' \<and> schema \<noteq> JNull then Inr schema
      else case schema of
        JStr s \<Rightarrow> try_catch (JSON_parse s) (\<lambda>e. Inr JNull)
      | _ \<Rightarrow> Inr JNull)"

definition getToolCategory :: "string \<Rightarrow> string" where
  "getToolCategory toolName =
     (if includes_str toolName ''search'' \<or> includes_str toolName ''find'' then ''Search''
      else if includes_str toolName ''create'' \<or> includes_str toolName ''add'' then ''Create''
      else if includes_str toolName ''update'' \<or> includes_str toolName ''edit'' then ''Update''
      else if includes_str toolName ''delete'' \<or> includes_str toolName ''remove'' then ''Delete''
      else if includes_str toolName ''get'' \<or> includes_str toolName ''fetch'' then ''Read''
      else ''General'')"

definition getCategoryColor :: "string \<Rightarrow> string" where
  "getCategoryColor category =
     (if category = ''Search'' then ''default''
      else if category = ''Create'' then ''default''
      else if category = ''Update'' then ''secondary''
      else if category = ''Delete'' then ''destructive''
      else if category = ''Read'' then ''outline''
      else ''secondary'')"

text \<open>The empty-state message compares the status as it is, with \<open>===\<close>.\<close>

definition getNoToolsMessage :: "string option \<Rightarrow> string" where
  "getNoToolsMessage status =
     (if status = Some ''CONNECTED'' then
        ''This server is connected but doesn't have any tools available.''
      else if status = Some ''FAILED'' then
        ''Server connection failed. Tools cannot be loaded.''
      else ''Connect to this server to load and view available tools.'')"

text \<open>
  What the component renders. A card is one tool of the filtered list: its category and
  badge, whether the "View Schema" control is shown (the parsed schema is truthy) and the
  schema panel, shown for the expanded tool. In the grid layout the panel sits inside the
  \<open>schema &&\<close> block; in the list layout it depends on the expansion alone.
\<close>

record tool_card =
  card_name :: string
  card_category :: string
  card_badge :: string
  card_description :: string
  card_viewSchema :: bool
  card_panel :: "jsval option"

record explorer_body =
  body_shown :: nat
  body_total :: nat
  body_mode :: view_mode
  body_cards :: "tool_card list"
  body_noToolsFound :: bool

datatype explorer_view = NoToolsAvailable string | ToolsView explorer_body

fun map_result :: "('a \<Rightarrow> thrown + 'b) \<Rightarrow> 'a list \<Rightarrow> thrown + 'b list" where
  "map_result f [] = Inr []"
| "map_result f (x # xs) =
     (case f x of
        Inl e \<Rightarrow> Inl e
      | Inr y \<Rightarrow> (case map_result f xs of Inl e \<Rightarrow> Inl e | Inr ys \<Rightarrow> Inr (y # ys)))"

definition render_card ::
  "(string \<Rightarrow> thrown + jsval) \<Rightarrow> explorer_state \<Rightarrow> tool \<Rightarrow> thrown + tool_card" where
  "render_card JSON_parse st t =
     (let category = getToolCategory (tool_name t) in
      case parseSchema JSON_parse (tool_schema t) of
        Inl e \<Rightarrow> Inl e
      | Inr schema \<Rightarrow>
          Inr \<lparr>card_name = tool_name t,
               card_category = category,
               card_badge = getCategoryColor category,
               card_description = tool_description t,
               card_viewSchema = truthy schema,
               card_panel =
                 (if expandedTool st = Some (tool_name t) \<and>
                     (viewMode st = ListView \<or> truthy schema)
                  then Some schema else None)\<rparr>)"

definition ToolsExplorer ::
  "(string \<Rightarrow> thrown + jsval) \<Rightarrow> server \<Rightarrow> explorer_state \<Rightarrow> thrown + explorer_view" where
  "ToolsExplorer JSON_parse srv st =
     (let tools = tools_of srv;
          filtered = filteredTools tools (searchTerm st) (filterStatus st)
      in if tools = [] then
           Inr (NoToolsAvailable (getNoToolsMessage (server_connectionStatus srv)))
         else
           case map_result (render_card JSON_parse st) filtered of
             Inl e \<Rightarrow> Inl e
           | Inr cards \<Rightarrow>
               Inr (ToolsView
                 \<lparr>body_shown = length filtered,
                  body_total = length tools,
                  body_mode = viewMode st,
                  body_cards = cards,
                  body_noToolsFound = (filtered = [])\<rparr>))"


section \<open>Asynchronous collaborators and their effects\<close>

text \<open>
  The components call collaborators that return promises (\<open>onAction\<close>, \<open>onSubmit\<close>).
  An awaited promise resolves with a value, rejects with a thrown value, or never
  settles; a collaborator that throws before it returns a promise lands in the same
  \<open>catch\<close> and counts as a rejection. A handler run is then a completion: it returned, it threw past the handler,
  or it is still suspended at the \<open>await\<close>; each carries the component state reached.
  Notifications (\<open>toast\<close>), console output and the \<open>onClose\<close> callback are recorded in
  the order they happen.
\<close>

datatype 'a settled = Resolved 'a | Rejected thrown | Pending

datatype 's completion = Returned 's | Threw thrown 's | Suspended 's

datatype effect =
    ToastSuccess string
  | ToastError string
  | ConsoleError string thrown
  | OnClose

text \<open>\<open>try { ... } catch (error) { handler }\<close> and \<open>... finally { cleanup }\<close> on
  completions: a handler runs on a throw only, a cleanup on a return and on a throw, and
  neither runs while the body is suspended.\<close>

definition catching :: "'s completion \<Rightarrow> (thrown \<Rightarrow> 's \<Rightarrow> 's completion) \<Rightarrow> 's completion" where
  "catching body handler =
     (case body of
        Returned s \<Rightarrow> Returned s
      | Threw e s \<Rightarrow> handler e s
      | Suspended s \<Rightarrow> Suspended s)"

definition finally_do :: "'s completion \<Rightarrow> ('s \<Rightarrow> 's) \<Rightarrow> 's completion" where
  "finally_do body cleanup =
     (case body of
        Returned s \<Rightarrow> Returned (cleanup s)
      | Threw e s \<Rightarrow> Threw e (cleanup s)
      | Suspended s \<Rightarrow> Suspended s)"

text \<open>The component state a completion carries.\<close>

definition state_of :: "'s completion \<Rightarrow> 's" where
  "state_of c = (case c of Returned s \<Rightarrow> s | Threw e s \<Rightarrow> s | Suspended s \<Rightarrow> s)"


section \<open>ServerManagement\<close>

datatype action = Restart | Activate | Deactivate

fun action_name :: "action \<Rightarrow> string" where
  "action_name Restart = ''restart''"
| "action_name Activate = ''activate''"
| "action_name Deactivate = ''deactivate''"

text \<open>\<open>loading\<close> is the in-flight marker: \<open>useState<string | null>(null)\<close>.\<close>

record panel_state =
  loading :: "string option"
  panel_effects :: "effect list"

definition panel_init :: panel_state where
  "panel_init = \<lparr>loading = None, panel_effects = []\<rparr>"

definition setLoading :: "string option \<Rightarrow> panel_state \<Rightarrow> panel_state" where
  "setLoading v st = st\<lparr>loading := v\<rparr>"

definition panel_emit :: "effect \<Rightarrow> panel_state \<Rightarrow> panel_state" where
  "panel_emit e st = st\<lparr>panel_effects := panel_effects st @ [e]\<rparr>"

text \<open>The message of the success notification: the \<open>message\<close> of the result when the
  result is an object that has one and it is a string, else the default text.\<close>

definition success_message :: "jsval \<Rightarrow> action \<Rightarrow> string" where
  "success_message result act =
     (if truthy result \<and> typeof result = ''object'' \<and> in_operator ''message'' result \<and>
         typeof (get_property result ''message'') = ''string''
      then (case get_property result ''message'' of
              JStr m \<Rightarrow> m
            | _ \<Rightarrow> ''Server '' @ action_name act @ ''d successfully'')
      else ''Server '' @ action_name act @ ''d successfully'')"

definition error_message :: "thrown \<Rightarrow> action \<Rightarrow> string" where
  "error_message error act =
     (case error of
        ErrorInstance m \<Rightarrow> m
      | ThrownValue v \<Rightarrow> ''Failed to '' @ action_name act @ '' server'')"

definition handleAction ::
  "(string \<Rightarrow> action \<Rightarrow> jsval settled) \<Rightarrow> server \<Rightarrow> action \<Rightarrow> panel_state
     \<Rightarrow> panel_state completion" where
  "handleAction onAction srv act st =
     (let st1 = setLoading (Some (action_name act)) st in
      finally_do
        (catching
           (case onAction (server_name srv) act of
              Pending \<Rightarrow> Suspended st1
            | Rejected e \<Rightarrow> Threw e st1
            | Resolved result \<Rightarrow>
                Returned (panel_emit (ToastSuccess (success_message result act)) st1))
           (\<lambda>error s.
              Returned
                (panel_emit (ToastError (error_message error act))
                   (panel_emit
                      (ConsoleError (''Failed to '' @ action_name act @ '' server:'') error)
                      s))))
        (setLoading None))"

text \<open>\<open>if (!status)\<close>: null, undefined and the empty string are falsy.\<close>

definition falsy_string :: "string option \<Rightarrow> bool" where
  "falsy_string status = (case status of None \<Rightarrow> True | Some s \<Rightarrow> s = [])"

text \<open>\<open>server.connectionStatus?.toUpperCase()\<close>: undefined when the status is null or
  undefined.\<close>

definition upper_status :: "server \<Rightarrow> string option" where
  "upper_status srv = map_option toUpperCase (server_connectionStatus srv)"

definition getStatusColor :: "string option \<Rightarrow> string" where
  "getStatusColor status =
     (if falsy_string status then ''outline''
      else if map_option toUpperCase status = Some ''CONNECTED'' then ''default''
      else if map_option toUpperCase status = Some ''DISCONNECTED'' then ''secondary''
      else if map_option toUpperCase status = Some ''FAILED'' then ''destructive''
      else ''outline'')"

datatype icon = Power | CheckCircle | XCircle | Loader2 | Play | Pause

definition getStatusIcon :: "string option \<Rightarrow> icon" where
  "getStatusIcon status =
     (if falsy_string status then Power
      else if map_option toUpperCase status = Some ''CONNECTED'' then CheckCircle
      else if map_option toUpperCase status = Some ''DISCONNECTED'' then XCircle
      else if map_option toUpperCase status = Some ''FAILED'' then XCircle
      else Power)"

definition isActionDisabled :: "panel_state \<Rightarrow> server \<Rightarrow> string \<Rightarrow> bool" where
  "isActionDisabled st srv act =
     (if \<not> falsy_string (loading st) then True
      else if act = ''activate'' then upper_status srv = Some ''CONNECTED''
      else if act = ''deactivate'' then upper_status srv \<noteq> Some ''CONNECTED''
      else if act = ''restart'' then False
      else False)"

text \<open>The colour classes of the status dot.\<close>

definition status_dot :: "server \<Rightarrow> string" where
  "status_dot srv =
     (if upper_status srv = Some ''CONNECTED'' then
        ''bg-green-500 hover:bg-green-600 animate-pulse''
      else if upper_status srv = Some ''DISCONNECTED'' then
        ''bg-yellow-500 hover:bg-yellow-600''
      else if upper_status srv = Some ''FAILED'' then
        ''bg-red-500 hover:bg-red-600 animate-pulse''
      else ''bg-gray-400 hover:bg-gray-500'')"

definition status_label :: "server \<Rightarrow> string" where
  "status_label srv =
     (case server_connectionStatus srv of
        None \<Rightarrow> ''Unknown''
      | Some s \<Rightarrow> if s = [] then ''Unknown'' else s)"

text \<open>
  The rendered panel: the status indicator, the primary button (Deactivate for a
  connected server, else Activate; a spinner while that action is in flight), the menu
  trigger (disabled while \<open>loading !== null\<close>), the menu's entry for the other action and
  the Restart entry, each with its disabled flag.
\<close>

record panel_view =
  view_dot :: string
  view_badge :: string
  view_icon :: icon
  view_label :: string
  view_primary :: action
  view_primary_disabled :: bool
  view_primary_icon :: icon
  view_menu_disabled :: bool
  view_menu_action :: action
  view_menu_action_disabled :: bool
  view_restart_disabled :: bool

definition ServerManagement :: "server \<Rightarrow> panel_state \<Rightarrow> panel_view" where
  "ServerManagement srv st =
     (let connected = (upper_status srv = Some ''CONNECTED'');
          primary = (if connected then Deactivate else Activate);
          other = (if connected then Activate else Deactivate)
      in \<lparr>view_dot = status_dot srv,
          view_badge = getStatusColor (server_connectionStatus srv),
          view_icon = getStatusIcon (server_connectionStatus srv),
          view_label = status_label srv,
          view_primary = primary,
          view_primary_disabled = isActionDisabled st srv (action_name primary),
          view_primary_icon =
            (if loading st = Some (action_name primary) then Loader2
             else if connected then Pause else Play),
          view_menu_disabled = (loading st \<noteq> None),
          view_menu_action = other,
          view_menu_action_disabled = isActionDisabled st srv (action_name other),
          view_restart_disabled = isActionDisabled st srv ''restart''\<rparr>)"


section \<open>JSON text\<close>

text \<open>
  \<open>JSON.stringify\<close> on the values of the model, without indentation: \<open>None\<close> is the
  result \<open>undefined\<close>. An undefined array element prints as \<open>null\<close>, an undefined
  property is left out. Properties print in the order of the list.
\<close>

definition hex_digit :: "nat \<Rightarrow> char" where
  "hex_digit n = (if n < 10 then char_of (48 + n) else char_of (87 + n))"

definition quote_char :: "char \<Rightarrow> string" where
  "quote_char c =
     (let n = (of_char c :: nat) in
      if n = 34 then [CHR 0x5C, CHR 0x22]
      else if n = 92 then [CHR 0x5C, CHR 0x5C]
      else if n = 8 then [CHR 0x5C, CHR ''b'']
      else if n = 12 then [CHR 0x5C, CHR ''f'']
      else if n = 10 then [CHR 0x5C, CHR ''n'']
      else if n = 13 then [CHR 0x5C, CHR ''r'']
      else if n = 9 then [CHR 0x5C, CHR ''t'']
      else if n < 32 then [CHR 0x5C] @ ''u00'' @ [hex_digit (n div 16), hex_digit (n mod 16)]
      else [c])"

definition quote_string :: "string \<Rightarrow> string" where
  "quote_string s = [CHR 0x22] @ concat (map quote_char s) @ [CHR 0x22]"

fun join_comma :: "string list \<Rightarrow> string" where
  "join_comma [] = []"
| "join_comma [x] = x"
| "join_comma (x # y # ys) = x @ '','' @ join_comma (y # ys)"

fun JSON_stringify :: "jsval \<Rightarrow> string option" where
  "JSON_stringify JUndefined = None"
| "JSON_stringify JNull = Some ''null''"
| "JSON_stringify (JBool b) = Some (if b then ''true'' else ''false'')"
| "JSON_stringify (JNum n) = Some (show_int n)"
| "JSON_stringify (JStr s) = Some (quote_string s)"
| "JSON_stringify (JArr xs) =
     Some (''['' @
       join_comma
         (map (\<lambda>x. case JSON_stringify x of None \<Rightarrow> ''null'' | Some t \<Rightarrow> t) xs) @
       '']'')"
| "JSON_stringify (JObj kvs) =
     Some (''{'' @
       join_comma
         (concat
            (map (\<lambda>kv. case JSON_stringify (snd kv) of
                         None \<Rightarrow> []
                       | Some t \<Rightarrow> [quote_string (fst kv) @ '':'' @ t]) kvs)) @
       ''}'')"

text \<open>
  A reference reader for JSON text, used to run \<open>parseSchema\<close> on concrete inputs. It
  reads the JSON grammar as far as the values of the model reach: objects, arrays,
  strings with their escapes, integer numerals and the three literals, with white space
  between tokens. A numeral with a fraction or an exponent and a \<open>\u\<close> escape above
  \<open>00ff\<close> denote values the model does not hold, and the reader rejects them like a
  syntax error. A repeated key keeps its first position and its last value.

  The reader is a scanner over the characters followed by a stack machine over the
  tokens, both by recursion on the input.
\<close>

datatype token =
    TLBrace | TRBrace | TLBracket | TRBracket | TColon | TComma
  | TString string | TNumber int | TTrue | TFalse | TNull

datatype scan_mode =
    Idle
  | InString string
  | InEscape string
  | InUnicode string "nat list"
  | AfterMinus
  | AfterZero bool
  | InDigits bool nat
  | InWord string token

definition digit_value :: "char \<Rightarrow> nat option" where
  "digit_value c =
     (let n = (of_char c :: nat) in if 48 \<le> n \<and> n \<le> 57 then Some (n - 48) else None)"

definition hex_value :: "char \<Rightarrow> nat option" where
  "hex_value c =
     (let n = (of_char c :: nat) in
      if 48 \<le> n \<and> n \<le> 57 then Some (n - 48)
      else if 97 \<le> n \<and> n \<le> 102 then Some (n - 87)
      else if 65 \<le> n \<and> n \<le> 70 then Some (n - 55)
      else None)"

definition signed :: "bool \<Rightarrow> nat \<Rightarrow> int" where
  "signed negative n = (if negative then - int n else int n)"

text \<open>A character met between tokens. Tokens are collected in reverse.\<close>

definition scan_idle :: "char \<Rightarrow> token list \<Rightarrow> (scan_mode \<times> token list) option" where
  "scan_idle c toks =
     (if c = CHR '' '' \<or> c = CHR 0x09 \<or> c = CHR 0x0A \<or> c = CHR 0x0D then Some (Idle, toks)
      else if c = CHR ''{'' then Some (Idle, TLBrace # toks)
      else if c = CHR ''}'' then Some (Idle, TRBrace # toks)
      else if c = CHR ''['' then Some (Idle, TLBracket # toks)
      else if c = CHR '']'' then Some (Idle, TRBracket # toks)
      else if c = CHR '':'' then Some (Idle, TColon # toks)
      else if c = CHR '','' then Some (Idle, TComma # toks)
      else if c = CHR 0x22 then Some (InString [], toks)
      else if c = CHR ''-'' then Some (AfterMinus, toks)
      else if c = CHR ''0'' then Some (AfterZero False, toks)
      else if c = CHR ''t'' then Some (InWord ''rue'' TTrue, toks)
      else if c = CHR ''f'' then Some (InWord ''alse'' TFalse, toks)
      else if c = CHR ''n'' then Some (InWord ''ull'' TNull, toks)
      else case digit_value c of
             Some d \<Rightarrow> Some (InDigits False d, toks)
           | None \<Rightarrow> None)"

definition unescape :: "char \<Rightarrow> char option" where
  "unescape c =
     (if c = CHR 0x22 \<or> c = CHR 0x5C \<or> c = CHR ''/'' then Some c
      else if c = CHR ''b'' then Some (CHR 0x08)
      else if c = CHR ''f'' then Some (CHR 0x0C)
      else if c = CHR ''n'' then Some (CHR 0x0A)
      else if c = CHR ''r'' then Some (CHR 0x0D)
      else if c = CHR ''t'' then Some (CHR 0x09)
      else None)"

fun scan_step :: "scan_mode \<times> token list \<Rightarrow> char \<Rightarrow> (scan_mode \<times> token list) option" where
  "scan_step (Idle, toks) c = scan_idle c toks"
| "scan_step (InString acc, toks) c =
     (if c = CHR 0x22 then Some (Idle, TString (rev acc) # toks)
      else if c = CHR 0x5C then Some (InEscape acc, toks)
      else if (of_char c :: nat) < 32 then None
      else Some (InString (c # acc), toks))"
| "scan_step (InEscape acc, toks) c =
     (if c = CHR ''u'' then Some (InUnicode acc [], toks)
      else case unescape c of
             Some x \<Rightarrow> Some (InString (x # acc), toks)
           | None \<Rightarrow> None)"
| "scan_step (InUnicode acc ds, toks) c =
     (case hex_value c of
        None \<Rightarrow> None
      | Some d \<Rightarrow>
          (if length ds < 3 then Some (InUnicode acc (ds @ [d]), toks)
           else let v = foldl (\<lambda>a x. 16 * a + x) 0 (ds @ [d])
                in if v < 256 then Some (InString (char_of v # acc), toks) else None))"
| "scan_step (AfterMinus, toks) c =
     (case digit_value c of
        None \<Rightarrow> None
      | Some d \<Rightarrow> if d = 0 then Some (AfterZero True, toks) else Some (InDigits True d, toks))"
| "scan_step (AfterZero negative, toks) c =
     (if c = CHR ''.'' \<or> c = CHR ''e'' \<or> c = CHR ''E'' then None
      else case digit_value c of
             Some d \<Rightarrow> None
           | None \<Rightarrow> scan_idle c (TNumber 0 # toks))"
| "scan_step (InDigits negative n, toks) c =
     (if c = CHR ''.'' \<or> c = CHR ''e'' \<or> c = CHR ''E'' then None
      else case digit_value c of
             Some d \<Rightarrow> Some (InDigits negative (10 * n + d), toks)
           | None \<Rightarrow> scan_idle c (TNumber (signed negative n) # toks))"
| "scan_step (InWord [] tok, toks) c = None"
| "scan_step (InWord (x # rest) tok, toks) c =
     (if c \<noteq> x then None
      else if rest = [] then Some (Idle, tok # toks)
      else Some (InWord rest tok, toks))"

fun scan_all :: "scan_mode \<times> token list \<Rightarrow> string \<Rightarrow> (scan_mode \<times> token list) option" where
  "scan_all st [] = Some st"
| "scan_all st (c # cs) =
     (case scan_step st c of None \<Rightarrow> None | Some st' \<Rightarrow> scan_all st' cs)"

text \<open>The end of the text: a numeral may end there, nothing else may be open.\<close>

fun finish_scan :: "scan_mode \<times> token list \<Rightarrow> token list option" where
  "finish_scan (Idle, toks) = Some (rev toks)"
| "finish_scan (AfterZero negative, toks) = Some (rev (TNumber 0 # toks))"
| "finish_scan (InDigits negative n, toks) = Some (rev (TNumber (signed negative n) # toks))"
| "finish_scan (m, toks) = None"

definition scan_from :: "scan_mode \<times> token list \<Rightarrow> string \<Rightarrow> token list option" where
  "scan_from st s = (case scan_all st s of None \<Rightarrow> None | Some st' \<Rightarrow> finish_scan st')"

definition scan :: "string \<Rightarrow> token list option" where
  "scan s = scan_from (Idle, []) s"

datatype frame =
    InArray "jsval list"
  | InObject "(string \<times> jsval) list"
  | InMember "(string \<times> jsval) list" string

datatype expect = Value | ValueOrEnd | KeyOrEnd | Key | Colon | CommaOrEnd | Done jsval

fun set_member :: "string \<Rightarrow> jsval \<Rightarrow> (string \<times> jsval) list \<Rightarrow> (string \<times> jsval) list" where
  "set_member k v [] = [(k, v)]"
| "set_member k v (p # ps) = (if fst p = k then (k, v) # ps else p # set_member k v ps)"

text \<open>A complete value goes to the innermost open container, or ends the text.\<close>

fun deliver :: "jsval \<Rightarrow> frame list \<Rightarrow> (expect \<times> frame list) option" where
  "deliver v [] = Some (Done v, [])"
| "deliver v (InArray es # st) = Some (CommaOrEnd, InArray (v # es) # st)"
| "deliver v (InMember ms k # st) = Some (CommaOrEnd, InObject (set_member k v ms) # st)"
| "deliver v (InObject ms # st) = None"

fun scalar :: "token \<Rightarrow> jsval option" where
  "scalar (TString s) = Some (JStr s)"
| "scalar (TNumber n) = Some (JNum n)"
| "scalar TTrue = Some (JBool True)"
| "scalar TFalse = Some (JBool False)"
| "scalar TNull = Some JNull"
| "scalar t = None"

definition begin_value :: "token \<Rightarrow> frame list \<Rightarrow> (expect \<times> frame list) option" where
  "begin_value t st =
     (if t = TLBrace then Some (KeyOrEnd, InObject [] # st)
      else if t = TLBracket then Some (ValueOrEnd, InArray [] # st)
      else case scalar t of Some v \<Rightarrow> deliver v st | None \<Rightarrow> None)"

definition begin_member :: "token \<Rightarrow> frame list \<Rightarrow> (expect \<times> frame list) option" where
  "begin_member t st =
     (case (t, st) of
        (TString k, InObject ms # rest) \<Rightarrow> Some (Colon, InMember ms k # rest)
      | _ \<Rightarrow> None)"

definition end_container :: "token \<Rightarrow> frame list \<Rightarrow> (expect \<times> frame list) option" where
  "end_container t st =
     (case (t, st) of
        (TRBracket, InArray es # rest) \<Rightarrow> deliver (JArr (rev es)) rest
      | (TRBrace, InObject ms # rest) \<Rightarrow> deliver (JObj ms) rest
      | _ \<Rightarrow> None)"

fun parse_step :: "expect \<times> frame list \<Rightarrow> token \<Rightarrow> (expect \<times> frame list) option" where
  "parse_step (Value, st) t = begin_value t st"
| "parse_step (ValueOrEnd, st) t =
     (if t = TRBracket then end_container t st else begin_value t st)"
| "parse_step (KeyOrEnd, st) t =
     (if t = TRBrace then end_container t st else begin_member t st)"
| "parse_step (Key, st) t = begin_member t st"
| "parse_step (Colon, st) t = (if t = TColon then Some (Value, st) else None)"
| "parse_step (CommaOrEnd, st) t =
     (if t = TComma then
        (case st of
           InArray es # rest \<Rightarrow> Some (Value, st)
         | InObject ms # rest \<Rightarrow> Some (Key, st)
         | _ \<Rightarrow> None)
      else end_container t st)"
| "parse_step (Done v, st) t = None"

fun parse_all :: "expect \<times> frame list \<Rightarrow> token list \<Rightarrow> (expect \<times> frame list) option" where
  "parse_all st [] = Some st"
| "parse_all st (t # ts) =
     (case parse_step st t of None \<Rightarrow> None | Some st' \<Rightarrow> parse_all st' ts)"

definition JSON_parse_ref :: "string \<Rightarrow> thrown + jsval" where
  "JSON_parse_ref s =
     (case scan s of
        None \<Rightarrow> Inl (ErrorInstance ''SyntaxError'')
      | Some toks \<Rightarrow>
          (case parse_all (Value, []) toks of
             Some (Done v, []) \<Rightarrow> Inr v
           | _ \<Rightarrow> Inl (ErrorInstance ''SyntaxError'')))"


text \<open>
  The tokens of a value's JSON text, to relate the printer and the reader, and the
  values whose text determines them: no \<open>undefined\<close> inside and no key twice in an
  object.
\<close>

fun separated :: "token list list \<Rightarrow> token list" where
  "separated [] = []"
| "separated [x] = x"
| "separated (x # y # ys) = x @ TComma # separated (y # ys)"

fun tokens_of :: "jsval \<Rightarrow> token list" where
  "tokens_of JUndefined = []"
| "tokens_of JNull = [TNull]"
| "tokens_of (JBool b) = [if b then TTrue else TFalse]"
| "tokens_of (JNum n) = [TNumber n]"
| "tokens_of (JStr s) = [TString s]"
| "tokens_of (JArr xs) = TLBracket # separated (map tokens_of xs) @ [TRBracket]"
| "tokens_of (JObj kvs) =
     TLBrace #
     separated (map (\<lambda>kv. TString (fst kv) # TColon # tokens_of (snd kv)) kvs) @
     [TRBrace]"

fun printable :: "jsval \<Rightarrow> bool" where
  "printable JUndefined = False"
| "printable (JArr xs) = list_all printable xs"
| "printable (JObj kvs) =
     (distinct (map fst kvs) \<and> list_all (\<lambda>kv. printable (snd kv)) kvs)"
| "printable v = True"

text \<open>
  A text \<open>t\<close> scans to the tokens \<open>ts\<close> when, between tokens and before the end of
  the input or a comma or a closing bracket or brace, reading \<open>t\<close> adds exactly
  \<open>ts\<close>. After a step of the stack machine the rest of the tokens is read from the
  state reached.
\<close>

definition delimited :: "string \<Rightarrow> bool" where
  "delimited rest =
     (case rest of [] \<Rightarrow> True | c # cs \<Rightarrow> c = CHR '','' \<or> c = CHR '']'' \<or> c = CHR ''}'')"

definition scans_to :: "string \<Rightarrow> token list \<Rightarrow> bool" where
  "scans_to t ts =
     (\<forall>toks rest. delimited rest \<longrightarrow>
        scan_from (Idle, toks) (t @ rest) = scan_from (Idle, rev ts @ toks) rest)"

definition then_parse ::
  "(expect \<times> frame list) option \<Rightarrow> token list \<Rightarrow> (expect \<times> frame list) option" where
  "then_parse r ts = (case r of None \<Rightarrow> None | Some s \<Rightarrow> parse_all s ts)"


section \<open>ServerFormModal\<close>

text \<open>
  \<open>ServerFormData\<close>, the values of the form: what \<open>z.infer\<close> gives for \<open>serverSchema\<close>,
  with \<open>None\<close> for an optional field that is undefined. The transport is kept as the
  string the form holds, so that the schema's \<open>z.enum\<close> has something to check: in
  edit mode the record's transport is written into the form by a type cast only.
\<close>

record ServerFormData =
  form_name :: string
  form_description :: "string option"
  form_transport :: string
  form_url :: "string option"
  form_command :: "string option"
  form_args :: "string option"
  form_requiresOauth :: "bool option"
  form_isPublic :: "bool option"
  form_headers :: "(string \<times> string) list option"

text \<open>An issue of the validation: the field and, for the name, the message the schema
  gives; for the transport, the value received.\<close>

datatype issue = TooSmall string string | InvalidEnumValue string string

text \<open>
  \<open>serverSchema\<close> on form values: \<open>name\<close> is \<open>z.string().min(1, ...)\<close>, \<open>transport\<close> is
  \<open>z.enum([...])\<close>, every other field is \<open>.optional()\<close> and typed already. The result
  is the list of issues; the submission is accepted when there is none.
\<close>

definition serverSchema :: "ServerFormData \<Rightarrow> issue list" where
  "serverSchema d =
     (if length (form_name d) < 1 then [TooSmall ''name'' ''Server name is required''] else []) @
     (if form_transport d \<in> set [''sse'', ''streamable_http'', ''stdio''] then []
      else [InvalidEnumValue ''transport'' (form_transport d)])"

datatype mode = Add | Edit

record modal_state =
  form_values :: ServerFormData
  showHeaders :: bool
  transportType :: string
  modal_effects :: "effect list"

definition default_values :: ServerFormData where
  "default_values =
     \<lparr>form_name = [], form_description = Some [], form_transport = ''sse'',
      form_url = Some [], form_command = Some [], form_args = Some [],
      form_requiresOauth = Some False, form_isPublic = Some False, form_headers = Some []\<rparr>"

definition modal_init :: modal_state where
  "modal_init =
     \<lparr>form_values = default_values, showHeaders = False, transportType = ''sse'',
      modal_effects = []\<rparr>"

text \<open>\<open>x || ""\<close> on an optional string and \<open>x || false\<close> on an optional flag.\<close>

definition or_empty :: "string option \<Rightarrow> string" where
  "or_empty x = (case x of None \<Rightarrow> [] | Some s \<Rightarrow> s)"

definition or_false :: "bool option \<Rightarrow> bool" where
  "or_false x = (case x of None \<Rightarrow> False | Some b \<Rightarrow> b)"

text \<open>\<open>server.args ? (typeof server.args === 'string' ? server.args
  : JSON.stringify(server.args)) : ""\<close>\<close>

definition args_text :: "jsval \<Rightarrow> string option" where
  "args_text a =
     (if truthy a then (case a of JStr s \<Rightarrow> Some s | _ \<Rightarrow> JSON_stringify a)
      else Some [])"

text \<open>The values the form is reset to in edit mode.\<close>

definition edit_values :: "server \<Rightarrow> ServerFormData" where
  "edit_values srv =
     \<lparr>form_name = server_name srv,
      form_description = Some (or_empty (server_description srv)),
      form_transport = server_transport srv,
      form_url = Some (or_empty (server_url srv)),
      form_command = Some (or_empty (server_command srv)),
      form_args = args_text (server_args srv),
      form_requiresOauth = Some (or_false (server_requiresOauth2 srv)),
      form_isPublic = Some (or_false (server_isPublic srv)),
      form_headers = Some []\<rparr>"

text \<open>The effect that runs when \<open>isOpen\<close>, \<open>mode\<close> or \<open>server\<close> change: for an open
  dialog it resets the form, sets the transport shown and collapses the headers.\<close>

definition open_effect :: "bool \<Rightarrow> mode \<Rightarrow> server option \<Rightarrow> modal_state \<Rightarrow> modal_state" where
  "open_effect isOpen m srv st =
     (if isOpen then
        (case (m, srv) of
           (Edit, Some r) \<Rightarrow>
             st\<lparr>form_values := edit_values r,
                transportType := server_transport r,
                showHeaders := False\<rparr>
         | _ \<Rightarrow>
             st\<lparr>form_values := default_values,
                transportType := ''sse'',
                showHeaders := False\<rparr>)
      else st)"

text \<open>The header rows rendered: one per entry of the \<open>headers\<close> field array.\<close>

definition header_rows :: "modal_state \<Rightarrow> (string \<times> string) list" where
  "header_rows st = (case form_headers (form_values st) of None \<Rightarrow> [] | Some hs \<Rightarrow> hs)"

definition modal_emit :: "effect \<Rightarrow> modal_state \<Rightarrow> modal_state" where
  "modal_emit e st = st\<lparr>modal_effects := modal_effects st @ [e]\<rparr>"

definition handleFormSubmit ::
  "(ServerFormData \<Rightarrow> unit settled) \<Rightarrow> mode \<Rightarrow> ServerFormData \<Rightarrow> modal_state
     \<Rightarrow> modal_state completion" where
  "handleFormSubmit onSubmit m d st =
     catching
       (case onSubmit d of
          Pending \<Rightarrow> Suspended st
        | Rejected e \<Rightarrow> Threw e st
        | Resolved u \<Rightarrow>
            Returned
              (modal_emit
                 (ToastSuccess
                    (''Server '' @ (if m = Add then ''added'' else ''updated'') @
                     '' successfully''))
                 (modal_emit OnClose st)))
       (\<lambda>error s.
          Returned
            (modal_emit
               (ToastError (''Failed to '' @ (if m = Add then ''add'' else ''update'') @ '' server''))
               (modal_emit (ConsoleError ''Form submission error:'' error) s)))"

text \<open>\<open>handleSubmit(handleFormSubmit)\<close>: the form library validates the values with the
  schema and calls the handler only when there is no issue.\<close>

definition handleSubmit ::
  "(ServerFormData \<Rightarrow> unit settled) \<Rightarrow> mode \<Rightarrow> modal_state
     \<Rightarrow> issue list + modal_state completion" where
  "handleSubmit onSubmit m st =
     (case serverSchema (form_values st) of
        [] \<Rightarrow> Inr (handleFormSubmit onSubmit m (form_values st) st)
      | i # is \<Rightarrow> Inl (i # is))"


section \<open>The reader reads back what the printer prints\<close>

text \<open>
  The printer and the reference reader are checked against each other: the text of a
  printable value scans to the value's tokens, the tokens parse to the value, and so
  reading the printed text gives the value back.
\<close>

lemma hex_value_hex_digit: "d < 16 \<Longrightarrow> hex_value (hex_digit d) = Some d"
  by (auto simp add: hex_value_def hex_digit_def Let_def)

lemma scan_all_append:
  "scan_all st (xs @ ys) = (case scan_all st xs of None \<Rightarrow> None | Some st' \<Rightarrow> scan_all st' ys)"
  by (induction xs arbitrary: st) (auto split: option.splits)

lemma scan_from_append:
  "scan_all st xs = Some st' \<Longrightarrow> scan_from st (xs @ ys) = scan_from st' ys"
  by (simp add: scan_from_def scan_all_append)

lemma scan_quote_char:
  "scan_all (InString acc, toks) (quote_char c) = Some (InString (c # acc), toks)"
proof -
  define n where "n = (of_char c :: nat)"
  have c: "c = char_of n" by (simp add: n_def)
  have n256: "n < 256" by (simp add: n_def)
  have chars: "char_of (34::nat) = CHR 0x22" "char_of (92::nat) = CHR 0x5C"
    "char_of (8::nat) = CHR 0x08" "char_of (12::nat) = CHR 0x0C" "char_of (10::nat) = CHR 0x0A"
    "char_of (13::nat) = CHR 0x0D" "char_of (9::nat) = CHR 0x09"
    by code_simp+
  consider "n = 34" | "n = 92" | "n = 8" | "n = 12" | "n = 10" | "n = 13" | "n = 9"
    | "n < 32" "n \<notin> {8, 9, 10, 12, 13}" | "n \<ge> 32" "n \<noteq> 34" "n \<noteq> 92"
    by fastforce
  then show ?thesis
  proof cases
    case 8
    then have d: "n div 16 < 16" "n mod 16 < 16" "16 * (n div 16) + n mod 16 = n"
      by auto
    have q: "quote_char c = [CHR 0x5C] @ ''u00'' @ [hex_digit (n div 16), hex_digit (n mod 16)]"
      using 8 by (auto simp add: quote_char_def Let_def n_def[symmetric])
    have h0: "hex_value CHR ''0'' = Some 0"
      by (simp add: hex_value_def)
    have hd: "hex_value (hex_digit (n div 16)) = Some (n div 16)"
      "hex_value (hex_digit (n mod 16)) = Some (n mod 16)"
      using d by (simp_all add: hex_value_hex_digit)
    show ?thesis
      unfolding q using d(3) n256
      by (simp add: h0 hd c)
  next
    case 9
    then have q: "quote_char c = [c]"
      by (auto simp add: quote_char_def Let_def n_def[symmetric])
    have "c \<noteq> CHR 0x22" "c \<noteq> CHR 0x5C"
      using 9 by (auto simp: n_def)
    then show ?thesis
      unfolding q using 9 by (simp add: n_def)
  qed (simp_all add: quote_char_def Let_def n_def[symmetric] unescape_def c chars)
qed

lemma scan_quoted_chars:
  "scan_all (InString acc, toks) (concat (map quote_char s)) = Some (InString (rev s @ acc), toks)"
  by (induction s arbitrary: acc) (simp_all add: scan_all_append scan_quote_char)

lemma scan_quote_string:
  "scan_all (Idle, toks) (quote_string s) = Some (Idle, TString s # toks)"
  by (simp add: quote_string_def scan_all_append scan_quoted_chars scan_idle_def)

lemma scans_to_quote_string: "scans_to (quote_string s) [TString s]"
  by (simp add: scans_to_def scan_from_append [OF scan_quote_string])

lemma digit_char:
  assumes "d < 10"
  shows "digit_value (char_of (48 + d)) = Some d"
    and "char_of (48 + d) \<noteq> CHR ''.''" and "char_of (48 + d) \<noteq> CHR ''e''"
    and "char_of (48 + d) \<noteq> CHR ''E''"
    and "scan_idle (char_of (48 + d)) toks
          = Some (if d = 0 then AfterZero False else InDigits False d, toks)"
proof -
  have "d \<in> {0, 1, 2, 3, 4, 5, 6, 7, 8, 9}"
    using assms by auto
  then show "digit_value (char_of (48 + d)) = Some d"
    and "char_of (48 + d) \<noteq> CHR ''.''" and "char_of (48 + d) \<noteq> CHR ''e''"
    and "char_of (48 + d) \<noteq> CHR ''E''"
    and "scan_idle (char_of (48 + d)) toks
          = Some (if d = 0 then AfterZero False else InDigits False d, toks)"
    by (auto simp add: digit_value_def scan_idle_def char_of_eq_iff)
qed

lemma scan_show_nat:
  "scan_all (Idle, toks) (show_nat n)
     = Some (if n = 0 then AfterZero False else InDigits False n, toks)"
proof (induction n rule: show_nat.induct)
  case (1 n)
  show ?case
  proof (cases "n < 10")
    case True
    then show ?thesis
      by (subst show_nat.simps) (simp add: digit_char)
  next
    case False
    have sn: "show_nat n = show_nat (n div 10) @ [char_of (48 + n mod 10)]"
      by (subst show_nat.simps) (simp add: False)
    have "scan_all (Idle, toks) (show_nat (n div 10)) = Some (InDigits False (n div 10), toks)"
      using 1 False by simp
    then show ?thesis
      unfolding sn using False by (simp add: scan_all_append digit_char)
  qed
qed

lemma scan_minus_show_nat:
  "0 < n \<Longrightarrow> scan_all (AfterMinus, toks) (show_nat n) = Some (InDigits True n, toks)"
proof (induction n rule: show_nat.induct)
  case (1 n)
  show ?case
  proof (cases "n < 10")
    case True
    then show ?thesis
      using 1(2) by (subst show_nat.simps) (simp add: digit_char)
  next
    case False
    have sn: "show_nat n = show_nat (n div 10) @ [char_of (48 + n mod 10)]"
      by (subst show_nat.simps) (simp add: False)
    have "scan_all (AfterMinus, toks) (show_nat (n div 10)) = Some (InDigits True (n div 10), toks)"
      using 1 False by simp
    then show ?thesis
      unfolding sn using False by (simp add: scan_all_append digit_char)
  qed
qed

lemma scan_show_int:
  "scan_all (Idle, toks) (show_int i)
     = Some (if i = 0 then AfterZero False else InDigits (i < 0) (nat \<bar>i\<bar>), toks)"
proof (cases "i < 0")
  case True
  then show ?thesis
    by (simp add: show_int_def scan_idle_def scan_minus_show_nat)
next
  case False
  then show ?thesis
    by (auto simp add: show_int_def scan_show_nat)
qed

lemma number_then_delimiter:
  assumes "delimited rest"
  shows "scan_from (AfterZero neg, toks) rest = scan_from (Idle, TNumber 0 # toks) rest"
    and "scan_from (InDigits neg n, toks) rest = scan_from (Idle, TNumber (signed neg n) # toks) rest"
proof -
  show "scan_from (AfterZero neg, toks) rest = scan_from (Idle, TNumber 0 # toks) rest"
  proof (cases rest)
    case Nil
    then show ?thesis by (simp add: scan_from_def)
  next
    case (Cons c cs)
    then have "c = CHR '','' \<or> c = CHR '']'' \<or> c = CHR ''}''"
      using assms by (simp add: delimited_def)
    then show ?thesis
      unfolding Cons by (auto simp add: scan_from_def digit_value_def)
  qed
  show "scan_from (InDigits neg n, toks) rest = scan_from (Idle, TNumber (signed neg n) # toks) rest"
  proof (cases rest)
    case Nil
    then show ?thesis by (simp add: scan_from_def)
  next
    case (Cons c cs)
    then have "c = CHR '','' \<or> c = CHR '']'' \<or> c = CHR ''}''"
      using assms by (simp add: delimited_def)
    then show ?thesis
      unfolding Cons by (auto simp add: scan_from_def digit_value_def)
  qed
qed

lemma scans_to_show_int: "scans_to (show_int i) [TNumber i]"
proof -
  have "signed (i < 0) (nat \<bar>i\<bar>) = i"
    by (simp add: signed_def)
  then show ?thesis
    by (auto simp add: scans_to_def scan_from_append [OF scan_show_int] number_then_delimiter)
qed

lemma scans_to_literals:
  "scans_to ''null'' [TNull]" "scans_to ''true'' [TTrue]" "scans_to ''false'' [TFalse]"
  by (simp_all add: scans_to_def scan_from_def scan_all_append scan_idle_def split: option.splits)

lemma scans_to_join:
  assumes "list_all2 scans_to texts tokss"
  shows "scans_to (join_comma texts) (separated tokss)"
  using assms
proof (induction texts tokss rule: list_all2_induct)
  case Nil
  then show ?case by (simp add: scans_to_def)
next
  case (Cons t texts ts tokss)
  show ?case
  proof (cases texts)
    case Nil
    then have "tokss = []" using Cons.hyps(2) by simp
    then show ?thesis using Nil Cons.hyps(1) by simp
  next
    case (Cons u us)
    then obtain vs vss where tk: "tokss = vs # vss"
      using Cons.hyps(2) by (cases tokss) auto
    have comma: "delimited (CHR '','' # x)" for x
      by (simp add: delimited_def)
    have step: "scan_from (Idle, toks) (CHR '','' # x) = scan_from (Idle, TComma # toks) x" for toks x
      by (simp add: scan_from_def scan_idle_def)
    show ?thesis
      using Cons.hyps(1) Cons.IH comma
      unfolding Cons tk scans_to_def
      by (simp add: step)
  qed
qed

lemma printable_stringify: "printable v \<Longrightarrow> \<exists>t. JSON_stringify v = Some t"
  by (cases v) simp_all

lemma scans_to_brackets:
  assumes "scans_to body ts"
  shows "scans_to (''['' @ body @ '']'') (TLBracket # ts @ [TRBracket])"
    and "scans_to (''{'' @ body @ ''}'') (TLBrace # ts @ [TRBrace])"
proof -
  have open_close:
    "scan_from (Idle, toks) (CHR ''['' # x) = scan_from (Idle, TLBracket # toks) x"
    "scan_from (Idle, toks) (CHR '']'' # x) = scan_from (Idle, TRBracket # toks) x"
    "scan_from (Idle, toks) (CHR ''{'' # x) = scan_from (Idle, TLBrace # toks) x"
    "scan_from (Idle, toks) (CHR ''}'' # x) = scan_from (Idle, TRBrace # toks) x"
    for toks x
    by (simp_all add: scan_from_def scan_idle_def)
  have d: "delimited (CHR '']'' # x)" "delimited (CHR ''}'' # x)" for x
    by (simp_all add: delimited_def)
  show "scans_to (''['' @ body @ '']'') (TLBracket # ts @ [TRBracket])"
    using assms d unfolding scans_to_def by (simp add: open_close)
  show "scans_to (''{'' @ body @ ''}'') (TLBrace # ts @ [TRBrace])"
    using assms d unfolding scans_to_def by (simp add: open_close)
qed

lemma scans_to_member:
  assumes "scans_to t ts"
  shows "scans_to (quote_string k @ '':'' @ t) (TString k # TColon # ts)"
proof -
  have colon: "scan_from (Idle, toks) (CHR '':'' # x) = scan_from (Idle, TColon # toks) x"
    for toks x
    by (simp add: scan_from_def scan_idle_def)
  show ?thesis
    using assms unfolding scans_to_def
    by (simp add: scan_from_append [OF scan_quote_string] colon)
qed

lemma scans_to_value:
  "printable v \<Longrightarrow> JSON_stringify v = Some t \<Longrightarrow> scans_to t (tokens_of v)"
proof (induction v arbitrary: t)
  case (JArr xs)
  have "list_all2 scans_to
          (map (\<lambda>x. case JSON_stringify x of None \<Rightarrow> ''null'' | Some t \<Rightarrow> t) xs)
          (map tokens_of xs)"
    unfolding list_all2_map1 list_all2_map2
  proof (rule list_all2_same [THEN iffD2], rule ballI)
    fix x assume x: "x \<in> set xs"
    then have p: "printable x"
      using JArr.prems(1) by (simp add: list_all_iff)
    then obtain u where u: "JSON_stringify x = Some u"
      using printable_stringify by blast
    then have "scans_to u (tokens_of x)"
      using JArr.IH x p by blast
    then show "scans_to (case JSON_stringify x of None \<Rightarrow> ''null'' | Some t \<Rightarrow> t) (tokens_of x)"
      by (simp add: u)
  qed
  then have "scans_to
          (join_comma (map (\<lambda>x. case JSON_stringify x of None \<Rightarrow> ''null'' | Some t \<Rightarrow> t) xs))
          (separated (map tokens_of xs))"
    by (rule scans_to_join)
  then show ?case
    using JArr.prems(2) scans_to_brackets(1) by fastforce
next
  case (JObj kvs)
  have members: "list_all2 scans_to
          (concat (map (\<lambda>kv. case JSON_stringify (snd kv) of
                         None \<Rightarrow> []
                       | Some t \<Rightarrow> [quote_string (fst kv) @ '':'' @ t]) ms))
          (map (\<lambda>kv. TString (fst kv) # TColon # tokens_of (snd kv)) ms)"
    if "set ms \<subseteq> set kvs" for ms
    using that
  proof (induction ms)
    case Nil
    then show ?case by simp
  next
    case (Cons kv ms)
    then have kv: "kv \<in> set kvs" by simp
    then have p: "printable (snd kv)"
      using JObj.prems(1) by (simp add: list_all_iff)
    then obtain u where u: "JSON_stringify (snd kv) = Some u"
      using printable_stringify by blast
    have "snd kv \<in> Basic_BNFs.snds kv"
      by (cases kv) simp
    then have "scans_to u (tokens_of (snd kv))"
      using JObj.IH kv p u by blast
    then have "scans_to (quote_string (fst kv) @ '':'' @ u)
                 (TString (fst kv) # TColon # tokens_of (snd kv))"
      by (rule scans_to_member)
    then show ?case
      using Cons by (simp add: u)
  qed
  have "scans_to
          (join_comma (concat (map (\<lambda>kv. case JSON_stringify (snd kv) of
                         None \<Rightarrow> []
                       | Some t \<Rightarrow> [quote_string (fst kv) @ '':'' @ t]) kvs)))
          (separated (map (\<lambda>kv. TString (fst kv) # TColon # tokens_of (snd kv)) kvs))"
    by (rule scans_to_join) (simp add: members)
  then show ?case
    using JObj.prems(2) scans_to_brackets(2) by fastforce
qed (auto simp add: scans_to_literals scans_to_show_int scans_to_quote_string)

lemma scan_stringify:
  assumes "printable v" and "JSON_stringify v = Some t"
  shows "scan t = Some (tokens_of v)"
proof -
  have "scans_to t (tokens_of v)"
    using assms by (rule scans_to_value)
  moreover have "delimited []"
    by (simp add: delimited_def)
  ultimately have "scan_from (Idle, []) (t @ []) = scan_from (Idle, rev (tokens_of v) @ []) []"
    unfolding scans_to_def by blast
  then show ?thesis
    by (simp add: scan_def scan_from_def)
qed

lemma separated_Cons: "separated (t # ts) = t @ concat (map (\<lambda>u. TComma # u) ts)"
  by (induction ts arbitrary: t) simp_all

lemma set_member_fresh: "k \<notin> fst ` set ms \<Longrightarrow> set_member k v ms = ms @ [(k, v)]"
  by (induction ms) auto

lemma tokens_of_head:
  assumes "printable v"
  obtains t ts where "tokens_of v = t # ts" and "t \<noteq> TRBracket"
  using assms by (cases v) auto

lemma parse_value_or_end:
  assumes "printable v"
  shows "parse_all (ValueOrEnd, st) (tokens_of v @ rest) = parse_all (Value, st) (tokens_of v @ rest)"
proof -
  obtain t ts where "tokens_of v = t # ts" and "t \<noteq> TRBracket"
    using assms by (rule tokens_of_head)
  then show ?thesis by simp
qed

lemma parse_all_Cons: "parse_all s (t # ts) = then_parse (parse_step s t) ts"
  by (simp add: then_parse_def)

lemma parse_elements:
  assumes "\<And>y st rest. y \<in> set ys \<Longrightarrow>
             parse_all (Value, st) (tokens_of y @ rest) = then_parse (deliver y st) rest"
  shows "parse_all (CommaOrEnd, InArray es # st)
           (concat (map (\<lambda>u. TComma # u) (map tokens_of ys)) @ TRBracket # rest)
         = then_parse (deliver (JArr (rev es @ ys)) st) rest"
  using assms
proof (induction ys arbitrary: es)
  case Nil
  then show ?case
    by (simp add: end_container_def then_parse_def)
next
  case (Cons y ys)
  have "parse_all (CommaOrEnd, InArray es # st)
           (concat (map (\<lambda>u. TComma # u) (map tokens_of (y # ys))) @ TRBracket # rest)
        = parse_all (Value, InArray es # st)
           (tokens_of y @ concat (map (\<lambda>u. TComma # u) (map tokens_of ys)) @ TRBracket # rest)"
    by simp
  also have "\<dots> = parse_all (CommaOrEnd, InArray (y # es) # st)
           (concat (map (\<lambda>u. TComma # u) (map tokens_of ys)) @ TRBracket # rest)"
    using Cons.prems [of y] by (simp add: then_parse_def)
  also have "\<dots> = then_parse (deliver (JArr (rev (y # es) @ ys)) st) rest"
    using Cons.prems by (intro Cons.IH) simp
  finally show ?case by simp
qed

lemma parse_members:
  assumes "\<And>kv st rest. kv \<in> set ys \<Longrightarrow>
             parse_all (Value, st) (tokens_of (snd kv) @ rest) = then_parse (deliver (snd kv) st) rest"
    and "distinct (map fst (ms @ ys))"
  shows "parse_all (CommaOrEnd, InObject ms # st)
           (concat (map (\<lambda>u. TComma # u)
              (map (\<lambda>kv. TString (fst kv) # TColon # tokens_of (snd kv)) ys)) @ TRBrace # rest)
         = then_parse (deliver (JObj (ms @ ys)) st) rest"
  using assms
proof (induction ys arbitrary: ms)
  case Nil
  then show ?case
    by (simp add: end_container_def then_parse_def)
next
  case (Cons kv ys)
  obtain k v where kv: "kv = (k, v)" by (cases kv)
  have fresh: "k \<notin> fst ` set ms"
    using Cons.prems(2) by (auto simp add: kv)
  have "parse_all (CommaOrEnd, InObject ms # st)
           (concat (map (\<lambda>u. TComma # u)
              (map (\<lambda>kv. TString (fst kv) # TColon # tokens_of (snd kv)) (kv # ys))) @ TRBrace # rest)
        = parse_all (Value, InMember ms k # st)
           (tokens_of v @ concat (map (\<lambda>u. TComma # u)
              (map (\<lambda>kv. TString (fst kv) # TColon # tokens_of (snd kv)) ys)) @ TRBrace # rest)"
    by (simp add: kv begin_member_def)
  also have "\<dots> = parse_all (CommaOrEnd, InObject (ms @ [(k, v)]) # st)
           (concat (map (\<lambda>u. TComma # u)
              (map (\<lambda>kv. TString (fst kv) # TColon # tokens_of (snd kv)) ys)) @ TRBrace # rest)"
    using Cons.prems(1) [of kv] by (simp add: kv then_parse_def set_member_fresh [OF fresh])
  also have "\<dots> = then_parse (deliver (JObj ((ms @ [(k, v)]) @ ys)) st) rest"
    using Cons.prems by (intro Cons.IH) (simp_all add: kv)
  finally show ?case by (simp add: kv)
qed

lemma parse_tokens_of:
  "printable v \<Longrightarrow>
   parse_all (Value, st) (tokens_of v @ rest) = then_parse (deliver v st) rest"
proof (induction v arbitrary: st rest)
  case JUndefined
  then show ?case by simp
next
  case (JArr xs)
  show ?case
  proof (cases xs)
    case Nil
    then show ?thesis
      by (simp add: begin_value_def end_container_def then_parse_def)
  next
    case (Cons x ys)
    have px: "printable x" and pys: "\<And>y. y \<in> set ys \<Longrightarrow> printable y"
      using JArr.prems by (simp_all add: Cons list_all_iff)
    have "parse_all (Value, st) (tokens_of (JArr xs) @ rest)
          = parse_all (Value, InArray [] # st)
              (tokens_of x @ concat (map (\<lambda>u. TComma # u) (map tokens_of ys)) @ TRBracket # rest)"
      using parse_value_or_end [OF px]
      by (simp add: Cons separated_Cons begin_value_def)
    also have "\<dots> = parse_all (CommaOrEnd, InArray [x] # st)
              (concat (map (\<lambda>u. TComma # u) (map tokens_of ys)) @ TRBracket # rest)"
      using JArr.IH [of x] px by (simp add: Cons then_parse_def)
    also have "\<dots> = then_parse (deliver (JArr (rev [x] @ ys)) st) rest"
      using JArr.IH pys by (intro parse_elements) (simp add: Cons)
    finally show ?thesis by (simp add: Cons)
  qed
next
  case (JObj kvs)
  have ih: "parse_all (Value, st) (tokens_of (snd kv) @ rest) = then_parse (deliver (snd kv) st) rest"
    if "kv \<in> set kvs" for kv st rest
  proof -
    have "snd kv \<in> Basic_BNFs.snds kv"
      by (cases kv) simp
    moreover have "printable (snd kv)"
      using JObj.prems that by (simp add: list_all_iff)
    ultimately show ?thesis
      using JObj.IH that by blast
  qed
  show ?case
  proof (cases kvs)
    case Nil
    then show ?thesis
      by (simp add: begin_value_def end_container_def then_parse_def)
  next
    case (Cons kv ys)
    obtain k v where kv: "kv = (k, v)" by (cases kv)
    have d: "distinct (map fst ([(k, v)] @ ys))"
      using JObj.prems by (simp add: Cons kv)
    have "parse_all (Value, st) (tokens_of (JObj kvs) @ rest)
          = parse_all (Value, InMember [] k # st)
              (tokens_of v @ concat (map (\<lambda>u. TComma # u)
                (map (\<lambda>kv. TString (fst kv) # TColon # tokens_of (snd kv)) ys)) @ TRBrace # rest)"
      by (simp add: Cons kv separated_Cons begin_value_def begin_member_def)
    also have "\<dots> = parse_all (CommaOrEnd, InObject [(k, v)] # st)
              (concat (map (\<lambda>u. TComma # u)
                (map (\<lambda>kv. TString (fst kv) # TColon # tokens_of (snd kv)) ys)) @ TRBrace # rest)"
      using ih [of kv] by (simp add: Cons kv then_parse_def)
    also have "\<dots> = then_parse (deliver (JObj ([(k, v)] @ ys)) st) rest"
      using ih d by (intro parse_members) (simp_all add: Cons)
    finally show ?thesis by (simp add: Cons kv)
  qed
qed (simp_all add: begin_value_def then_parse_def)

text \<open>Reading the JSON text of a printable value gives the value.\<close>

lemma JSON_roundtrip:
  assumes "printable v" and "JSON_stringify v = Some t"
  shows "JSON_parse_ref t = Inr v"
proof -
  have "scan t = Some (tokens_of v)"
    using assms by (rule scan_stringify)
  moreover have "parse_all (Value, []) (tokens_of v @ []) = then_parse (deliver v []) []"
    using assms(1) by (rule parse_tokens_of)
  ultimately show ?thesis
    by (simp add: JSON_parse_ref_def then_parse_def)
qed


section \<open>Properties of ToolsExplorer\<close>

lemma take_length_eq_iff: "take (length sub) s = sub \<longleftrightarrow> (\<exists>ss. s = sub @ ss)"
proof
  assume "take (length sub) s = sub"
  then have "s = sub @ drop (length sub) s"
    by (metis append_take_drop_id)
  then show "\<exists>ss. s = sub @ ss" ..
next
  assume "\<exists>ss. s = sub @ ss"
  then show "take (length sub) s = sub" by auto
qed

text \<open>\<open>includes_str\<close> is containment: the text splits around an occurrence.\<close>

lemma includes_str_iff: "includes_str s sub \<longleftrightarrow> (\<exists>ps ss. s = ps @ sub @ ss)"
proof (induction s)
  case Nil
  then show ?case by auto
next
  case (Cons c cs)
  have "(\<exists>ps ss. c # cs = ps @ sub @ ss) \<longleftrightarrow>
        (\<exists>ss. c # cs = sub @ ss) \<or> (\<exists>ps ss. cs = ps @ sub @ ss)"
    by (auto simp: Cons_eq_append_conv)
  then show ?case
    using Cons.IH by (simp add: take_length_eq_iff del: take_Suc_Cons)
qed

text \<open>
  C1, as the spec states it: with the filter selection \<open>unavailable\<close> the filtered result
  is the same as with \<open>available\<close>, for every tool list and search text. This fails on
  the spec's own example tools with the search text \<open>user\<close>: \<open>available\<close> keeps the
  first tool, \<open>unavailable\<close> keeps none.
\<close>

theorem filteredTools_unavailable_counterexample:
  "filteredTools
     [\<lparr>tool_name = ''search_users'', tool_description = ''Find users'', tool_schema = JNull\<rparr>,
      \<lparr>tool_name = ''create_ticket'', tool_description = ''Open ticket'', tool_schema = JNull\<rparr>]
     ''user'' FilterUnavailable
   \<noteq>
   filteredTools
     [\<lparr>tool_name = ''search_users'', tool_description = ''Find users'', tool_schema = JNull\<rparr>,
      \<lparr>tool_name = ''create_ticket'', tool_description = ''Open ticket'', tool_schema = JNull\<rparr>]
     ''user'' FilterAvailable"
  by code_simp

text \<open>
  C1, amended: with the filter selection \<open>unavailable\<close> the filtered result is empty for
  every tool list and every search text, while \<open>available\<close> keeps exactly the tools
  that match the search; the two results are equal exactly when no tool matches the
  search text.
\<close>

theorem filteredTools_unavailable_empty:
  "filteredTools tools term FilterUnavailable = [] \<and>
   filteredTools tools term FilterAvailable = filter (matchesSearch term) tools \<and>
   (filteredTools tools term FilterUnavailable = filteredTools tools term FilterAvailable)
     = (filter (matchesSearch term) tools = [])"
proof -
  have u: "filteredTools tools term FilterUnavailable = []"
    by (simp add: filteredTools_def matchesFilter_def)
  have a: "filteredTools tools term FilterAvailable = filter (matchesSearch term) tools"
    by (simp add: filteredTools_def matchesFilter_def)
  show ?thesis
    unfolding u a by auto
qed

text \<open>
  C9: for every tool list, search text and filter selection, the filtered result keeps
  (in order) exactly the tools whose name or description contains the search text,
  both taken in lower case, provided the filter selection is \<open>all\<close> or \<open>available\<close>;
  for the two example tools and the search text \<open>user\<close> the result is the first tool
  alone.
\<close>

theorem filteredTools_spec:
  "filteredTools tools term fs =
     filter (\<lambda>t. ((\<exists>ps ss. toLowerCase (tool_name t) = ps @ toLowerCase term @ ss) \<or>
                   (\<exists>ps ss. toLowerCase (tool_description t) = ps @ toLowerCase term @ ss)) \<and>
                  (fs = FilterAll \<or> fs = FilterAvailable)) tools
   \<and> (t \<in> set (filteredTools tools term fs)) =
       (t \<in> set tools \<and>
        ((\<exists>ps ss. toLowerCase (tool_name t) = ps @ toLowerCase term @ ss) \<or>
         (\<exists>ps ss. toLowerCase (tool_description t) = ps @ toLowerCase term @ ss)) \<and>
        (fs = FilterAll \<or> fs = FilterAvailable))
   \<and> filteredTools
     [\<lparr>tool_name = ''search_users'', tool_description = ''Find users'', tool_schema = s1\<rparr>,
      \<lparr>tool_name = ''create_ticket'', tool_description = ''Open ticket'', tool_schema = s2\<rparr>]
     ''user'' FilterAll
     = [\<lparr>tool_name = ''search_users'', tool_description = ''Find users'', tool_schema = s1\<rparr>]"
proof (intro conjI)
  show eq: "filteredTools tools term fs =
     filter (\<lambda>t. ((\<exists>ps ss. toLowerCase (tool_name t) = ps @ toLowerCase term @ ss) \<or>
                   (\<exists>ps ss. toLowerCase (tool_description t) = ps @ toLowerCase term @ ss)) \<and>
                  (fs = FilterAll \<or> fs = FilterAvailable)) tools"
    by (simp add: filteredTools_def matchesSearch_def matchesFilter_def includes_str_iff)
  show "(t \<in> set (filteredTools tools term fs)) =
       (t \<in> set tools \<and>
        ((\<exists>ps ss. toLowerCase (tool_name t) = ps @ toLowerCase term @ ss) \<or>
         (\<exists>ps ss. toLowerCase (tool_description t) = ps @ toLowerCase term @ ss)) \<and>
        (fs = FilterAll \<or> fs = FilterAvailable))"
    unfolding eq by simp
next
  have low:
    "toLowerCase ''search_users'' = ''search_users''"
    "toLowerCase ''Find users'' = ''find users''"
    "toLowerCase ''create_ticket'' = ''create_ticket''"
    "toLowerCase ''Open ticket'' = ''open ticket''"
    "toLowerCase ''user'' = ''user''"
    by code_simp+
  have inc:
    "includes_str ''search_users'' ''user''"
    "\<not> includes_str ''create_ticket'' ''user''"
    "\<not> includes_str ''open ticket'' ''user''"
    by code_simp+
  show "filteredTools
     [\<lparr>tool_name = ''search_users'', tool_description = ''Find users'', tool_schema = s1\<rparr>,
      \<lparr>tool_name = ''create_ticket'', tool_description = ''Open ticket'', tool_schema = s2\<rparr>]
     ''user'' FilterAll
     = [\<lparr>tool_name = ''search_users'', tool_description = ''Find users'', tool_schema = s1\<rparr>]"
    by (simp add: filteredTools_def matchesSearch_def matchesFilter_def low inc)
qed

text \<open>
  C10: when \<open>server.tools\<close> is not an array, whatever else it is, the tool list the
  component works with is empty and the component returns the no-tools empty state,
  with the message chosen by the connection status; it does not throw, and the result
  does not depend on the value.
\<close>

theorem non_array_tools_empty_state:
  assumes "server_tools srv = NotAnArray v"
  shows "tools_of srv = [] \<and>
         ToolsExplorer JSON_parse srv st =
           Inr (NoToolsAvailable (getNoToolsMessage (server_connectionStatus srv)))"
proof -
  have "tools_of srv = []"
    using assms by (simp add: tools_of_def)
  then show ?thesis
    by (simp add: ToolsExplorer_def)
qed

theorem non_array_tools_empty_state_witness:
  "server_tools
     \<lparr>server_name = ''files'', server_description = None, server_transport = ''sse'',
      server_url = Some ''https://mcp.example.com/mcp'', server_command = None,
      server_args = JNull, server_requiresOauth2 = None, server_isPublic = None,
      server_connectionStatus = Some ''CONNECTED'',
      server_tools = NotAnArray (NObj [(''edges'', JArr [])]),
      server_headers = JUndefined\<rparr> = NotAnArray (NObj [(''edges'', JArr [])]) \<and>
   ToolsExplorer JSON_parse_ref
     \<lparr>server_name = ''files'', server_description = None, server_transport = ''sse'',
      server_url = Some ''https://mcp.example.com/mcp'', server_command = None,
      server_args = JNull, server_requiresOauth2 = None, server_isPublic = None,
      server_connectionStatus = Some ''CONNECTED'',
      server_tools = NotAnArray (NObj [(''edges'', JArr [])]),
      server_headers = JUndefined\<rparr> explorer_init =
     Inr (NoToolsAvailable
            ''This server is connected but doesn't have any tools available.'')"
  using non_array_tools_empty_state
    [of "\<lparr>server_name = ''files'', server_description = None, server_transport = ''sse'',
      server_url = Some ''https://mcp.example.com/mcp'', server_command = None,
      server_args = JNull, server_requiresOauth2 = None, server_isPublic = None,
      server_connectionStatus = Some ''CONNECTED'',
      server_tools = NotAnArray (NObj [(''edges'', JArr [])]),
      server_headers = JUndefined\<rparr>" "NObj [(''edges'', JArr [])]"
      JSON_parse_ref explorer_init]
  by (simp add: getNoToolsMessage_def)

text \<open>
  What \<open>parseSchema\<close> returns: an object or an array as it is; for a string what
  \<open>JSON.parse\<close> returns, and \<open>null\<close> when \<open>JSON.parse\<close> throws; for every other
  value \<open>null\<close>; it never throws, whatever the parser does. The text
  \<open>{"type":"object"}\<close> gives the object with the one property \<open>type\<close>, and
  \<open>{bad json\<close>, a syntax error, gives \<open>null\<close>. The card of a tool with the first
  schema has the "View Schema" control and shows the object when expanded; the card of
  a tool with the second has no "View Schema" control, and its panel is shown only by
  the list layout, for the expanded tool.
\<close>

lemma parseSchema_cases:
  \<open>parseSchema p (JObj kvs) = Inr (JObj kvs) \<and>
   parseSchema p (JArr xs) = Inr (JArr xs) \<and>
   parseSchema p (JStr s) = Inr (case p s of Inr v \<Rightarrow> v | Inl e \<Rightarrow> JNull) \<and>
   parseSchema p JNull = Inr JNull \<and>
   parseSchema p JUndefined = Inr JNull \<and>
   parseSchema p (JBool b) = Inr JNull \<and>
   parseSchema p (JNum n) = Inr JNull \<and>
   (\<exists>v. parseSchema p x = Inr v) \<and>
   parseSchema JSON_parse_ref (JStr ''{"type":"object"}'')
     = Inr (JObj [(''type'', JStr ''object'')]) \<and>
   render_card JSON_parse_ref st
     \<lparr>tool_name = nm, tool_description = ds, tool_schema = JStr ''{"type":"object"}''\<rparr>
     = Inr \<lparr>card_name = nm,
            card_category = getToolCategory nm,
            card_badge = getCategoryColor (getToolCategory nm),
            card_description = ds,
            card_viewSchema = True,
            card_panel =
              (if expandedTool st = Some nm then Some (JObj [(''type'', JStr ''object'')])
               else None)\<rparr> \<and>
   JSON_parse_ref ''{bad json'' = Inl (ErrorInstance ''SyntaxError'') \<and>
   parseSchema JSON_parse_ref (JStr ''{bad json'') = Inr JNull \<and>
   render_card JSON_parse_ref st
     \<lparr>tool_name = nm, tool_description = ds, tool_schema = JStr ''{bad json''\<rparr>
     = Inr \<lparr>card_name = nm,
            card_category = getToolCategory nm,
            card_badge = getCategoryColor (getToolCategory nm),
            card_description = ds,
            card_viewSchema = False,
            card_panel =
              (if expandedTool st = Some nm \<and> viewMode st = ListView then Some JNull
               else None)\<rparr>\<close>
proof -
  have good: \<open>JSON_parse_ref ''{"type":"object"}'' = Inr (JObj [(''type'', JStr ''object'')])\<close>
    by code_simp
  have bad: \<open>JSON_parse_ref ''{bad json'' = Inl (ErrorInstance ''SyntaxError'')\<close>
    by code_simp
  have str: "parseSchema q (JStr t) = Inr (case q t of Inr v \<Rightarrow> v | Inl e \<Rightarrow> JNull)"
    for q t
    by (simp add: parseSchema_def try_catch_def split: sum.splits)
  have total: "\<exists>v. parseSchema p x = Inr v"
  proof (cases x)
    case (JStr t)
    then show ?thesis by (simp add: str)
  qed (simp_all add: parseSchema_def)
  have null: "parseSchema JSON_parse_ref (JStr ''{bad json'') = Inr JNull"
    by (simp add: str bad)
  have card: "render_card JSON_parse_ref st
     \<lparr>tool_name = nm, tool_description = ds, tool_schema = JStr ''{bad json''\<rparr>
     = Inr \<lparr>card_name = nm,
            card_category = getToolCategory nm,
            card_badge = getCategoryColor (getToolCategory nm),
            card_description = ds,
            card_viewSchema = False,
            card_panel =
              (if expandedTool st = Some nm \<and> viewMode st = ListView then Some JNull
               else None)\<rparr>"
    by (simp add: render_card_def null Let_def)
  have shown: \<open>render_card JSON_parse_ref st
     \<lparr>tool_name = nm, tool_description = ds, tool_schema = JStr ''{"type":"object"}''\<rparr>
     = Inr \<lparr>card_name = nm,
            card_category = getToolCategory nm,
            card_badge = getCategoryColor (getToolCategory nm),
            card_description = ds,
            card_viewSchema = True,
            card_panel =
              (if expandedTool st = Some nm then Some (JObj [(''type'', JStr ''object'')])
               else None)\<rparr>\<close>
    by (simp add: render_card_def str good Let_def)
  show ?thesis
    using total card shown by (simp add: str good bad) (simp add: parseSchema_def)
qed


text \<open>
  C7 says that \<open>parseSchema\<close> returns a structured schema unchanged, the parsed value
  of a schema string, and \<open>null\<close> without throwing when the string does not parse,
  so that the schema counts as absent and no schema section is rendered. The returned
  values are as stated (\<open>parseSchema_cases\<close>). The rendering is not, in the list
  layout: there the panel depends on the expansion alone, outside the \<open>schema &&\<close>
  block that guards it in the grid layout. A tool \<open>lookup\<close> with a parsable schema
  shows the "View Schema" control; using it expands \<open>lookup\<close>; when the record then
  arrives with the schema \<open>{bad json\<close>, the list layout renders a schema panel for
  the \<open>null\<close> schema, with no "View Schema" control to collapse it, while the grid
  layout renders none.
\<close>

theorem unparsable_schema_panel_in_list_layout:
  \<open>parseSchema JSON_parse_ref (JStr ''{bad json'') = Inr JNull \<and>
   ToolsExplorer JSON_parse_ref
     \<lparr>server_name = ''files'', server_description = None, server_transport = ''sse'',
      server_url = Some ''https://mcp.example.com/mcp'', server_command = None,
      server_args = JNull, server_requiresOauth2 = None, server_isPublic = None,
      server_connectionStatus = Some ''CONNECTED'',
      server_tools = ToolArray
        [\<lparr>tool_name = ''lookup'', tool_description = ''Look a file up'',
          tool_schema = JStr ''{"type":"object"}''\<rparr>],
      server_headers = JUndefined\<rparr>
     (explorer_init\<lparr>viewMode := ListView\<rparr>)
   = Inr (ToolsView
       \<lparr>body_shown = 1, body_total = 1, body_mode = ListView,
        body_cards =
          [\<lparr>card_name = ''lookup'', card_category = ''General'',
            card_badge = ''secondary'', card_description = ''Look a file up'',
            card_viewSchema = True, card_panel = None\<rparr>],
        body_noToolsFound = False\<rparr>) \<and>
   toggleToolExpansion ''lookup'' (explorer_init\<lparr>viewMode := ListView\<rparr>)
     = \<lparr>searchTerm = [], viewMode = ListView, expandedTool = Some ''lookup'',
        filterStatus = FilterAll\<rparr> \<and>
   ToolsExplorer JSON_parse_ref
     \<lparr>server_name = ''files'', server_description = None, server_transport = ''sse'',
      server_url = Some ''https://mcp.example.com/mcp'', server_command = None,
      server_args = JNull, server_requiresOauth2 = None, server_isPublic = None,
      server_connectionStatus = Some ''CONNECTED'',
      server_tools = ToolArray
        [\<lparr>tool_name = ''lookup'', tool_description = ''Look a file up'',
          tool_schema = JStr ''{bad json''\<rparr>],
      server_headers = JUndefined\<rparr>
     \<lparr>searchTerm = [], viewMode = ListView, expandedTool = Some ''lookup'',
      filterStatus = FilterAll\<rparr>
   = Inr (ToolsView
       \<lparr>body_shown = 1, body_total = 1, body_mode = ListView,
        body_cards =
          [\<lparr>card_name = ''lookup'', card_category = ''General'',
            card_badge = ''secondary'', card_description = ''Look a file up'',
            card_viewSchema = False, card_panel = Some JNull\<rparr>],
        body_noToolsFound = False\<rparr>) \<and>
   ToolsExplorer JSON_parse_ref
     \<lparr>server_name = ''files'', server_description = None, server_transport = ''sse'',
      server_url = Some ''https://mcp.example.com/mcp'', server_command = None,
      server_args = JNull, server_requiresOauth2 = None, server_isPublic = None,
      server_connectionStatus = Some ''CONNECTED'',
      server_tools = ToolArray
        [\<lparr>tool_name = ''lookup'', tool_description = ''Look a file up'',
          tool_schema = JStr ''{bad json''\<rparr>],
      server_headers = JUndefined\<rparr>
     \<lparr>searchTerm = [], viewMode = Grid, expandedTool = Some ''lookup'',
      filterStatus = FilterAll\<rparr>
   = Inr (ToolsView
       \<lparr>body_shown = 1, body_total = 1, body_mode = Grid,
        body_cards =
          [\<lparr>card_name = ''lookup'', card_category = ''General'',
            card_badge = ''secondary'', card_description = ''Look a file up'',
            card_viewSchema = False, card_panel = None\<rparr>],
        body_noToolsFound = False\<rparr>)\<close>
  by code_simp

section \<open>Properties of ServerManagement\<close>

lemma length_toUpperCase: "length (toUpperCase s) = length s"
  by (simp add: toUpperCase_def)

lemma falsy_string_case_variant:
  assumes "toUpperCase s = toUpperCase s'"
  shows "falsy_string (Some s) = falsy_string (Some s')"
proof -
  have "length s = length s'"
    using assms length_toUpperCase by metis
  then show ?thesis by (auto simp: falsy_string_def)
qed

text \<open>
  Two statuses that differ in letter case only (they have the same upper case) give
  the same panel: dot, badge, icon, buttons and disabled flags. Only the label differs,
  which prints the status as it is.
\<close>

lemma ServerManagement_case_insensitive:
  assumes "toUpperCase s = toUpperCase s'"
  shows "ServerManagement (srv\<lparr>server_connectionStatus := Some s\<rparr>) st
         = (ServerManagement (srv\<lparr>server_connectionStatus := Some s'\<rparr>) st)
              \<lparr>view_label := if s = [] then ''Unknown'' else s\<rparr>"
  using assms falsy_string_case_variant [OF assms]
  by (simp add: ServerManagement_def Let_def upper_status_def status_dot_def
      getStatusColor_def getStatusIcon_def isActionDisabled_def status_label_def)

text \<open>
  C2 says that every comparison of \<open>connectionStatus\<close> in the components gives the same
  outcome for a status and for its letter-case variants. The panel's comparisons do;
  the empty-state message of ToolsExplorer does not: \<open>connected\<close> and \<open>CONNECTED\<close>
  (and \<open>Failed\<close> and \<open>FAILED\<close>) have the same upper case and the same badge and icon
  in the panel, but different empty-state messages.
\<close>

theorem getNoToolsMessage_case_sensitive:
  "toUpperCase ''connected'' = toUpperCase ''CONNECTED'' \<and>
   getStatusColor (Some ''connected'') = getStatusColor (Some ''CONNECTED'') \<and>
   getStatusIcon (Some ''connected'') = getStatusIcon (Some ''CONNECTED'') \<and>
   getNoToolsMessage (Some ''CONNECTED'') =
     ''This server is connected but doesn't have any tools available.'' \<and>
   getNoToolsMessage (Some ''connected'') =
     ''Connect to this server to load and view available tools.'' \<and>
   toUpperCase ''Failed'' = toUpperCase ''FAILED'' \<and>
   getNoToolsMessage (Some ''FAILED'') = ''Server connection failed. Tools cannot be loaded.'' \<and>
   getNoToolsMessage (Some ''Failed'') =
     ''Connect to this server to load and view available tools.''"
  by code_simp

text \<open>
  C3: while an action is in flight (the marker holds the name of one of the three
  actions), \<open>isActionDisabled\<close> is true for every action name, and the primary button,
  the menu trigger and both menu entries are disabled. With no action in flight,
  \<open>activate\<close> is disabled exactly when the upper-cased status is \<open>CONNECTED\<close>,
  \<open>deactivate\<close> exactly when it is not (an absent status included), and \<open>restart\<close>
  is not disabled.
\<close>

theorem isActionDisabled_policy:
  "isActionDisabled (st\<lparr>loading := Some (action_name a)\<rparr>) srv act = True \<and>
   view_primary_disabled (ServerManagement srv (st\<lparr>loading := Some (action_name a)\<rparr>)) = True \<and>
   view_menu_disabled (ServerManagement srv (st\<lparr>loading := Some (action_name a)\<rparr>)) = True \<and>
   view_menu_action_disabled (ServerManagement srv (st\<lparr>loading := Some (action_name a)\<rparr>)) = True \<and>
   view_restart_disabled (ServerManagement srv (st\<lparr>loading := Some (action_name a)\<rparr>)) = True \<and>
   isActionDisabled (st\<lparr>loading := None\<rparr>) srv ''activate''
     = (map_option toUpperCase (server_connectionStatus srv) = Some ''CONNECTED'') \<and>
   isActionDisabled (st\<lparr>loading := None\<rparr>) srv ''deactivate''
     = (map_option toUpperCase (server_connectionStatus srv) \<noteq> Some ''CONNECTED'') \<and>
   isActionDisabled (st\<lparr>loading := None\<rparr>) srv ''restart'' = False"
proof -
  have busy: "\<not> falsy_string (loading (st\<lparr>loading := Some (action_name a)\<rparr>))"
    by (cases a) (simp_all add: falsy_string_def)
  have all_disabled: "isActionDisabled (st\<lparr>loading := Some (action_name a)\<rparr>) srv x" for x
    using busy by (simp add: isActionDisabled_def)
  have idle: "falsy_string (loading (st\<lparr>loading := None\<rparr>))"
    by (simp add: falsy_string_def)
  show ?thesis
    using idle by (simp add: all_disabled ServerManagement_def Let_def)
      (simp add: isActionDisabled_def upper_status_def)
qed

text \<open>
  C4: \<open>handleAction\<close> returns for every settled outcome of the collaborator, never
  throwing: after a resolution the marker is cleared and a success notification is
  added (the result's \<open>message\<close> when it has one, else the default text); after a
  rejection the marker is cleared, the error is logged and a failure notification is
  added. A rejection with \<open>Error("timeout")\<close> gives the failure notification
  \<open>timeout\<close>, a cleared marker and controls that are enabled again. Only while the
  promise is pending does the marker stay set.
\<close>

theorem handleAction_outcomes:
  "handleAction onAction srv act st =
     (case onAction (server_name srv) act of
        Resolved result \<Rightarrow>
          Returned (st\<lparr>loading := None,
                       panel_effects := panel_effects st @
                         [ToastSuccess (success_message result act)]\<rparr>)
      | Rejected e \<Rightarrow>
          Returned (st\<lparr>loading := None,
                       panel_effects := panel_effects st @
                         [ConsoleError (''Failed to '' @ action_name act @ '' server:'') e,
                          ToastError (error_message e act)]\<rparr>)
      | Pending \<Rightarrow> Suspended (st\<lparr>loading := Some (action_name act)\<rparr>)) \<and>
   handleAction (\<lambda>n a. Rejected (ErrorInstance ''timeout'')) srv act st =
     Returned (st\<lparr>loading := None,
                  panel_effects := panel_effects st @
                    [ConsoleError (''Failed to '' @ action_name act @ '' server:'')
                       (ErrorInstance ''timeout''),
                     ToastError ''timeout'']\<rparr>) \<and>
   isActionDisabled
     (state_of (handleAction (\<lambda>n a. Rejected (ErrorInstance ''timeout'')) srv act st))
     srv ''restart'' = False \<and>
   success_message (JObj [(''message'', JStr m)]) act = m \<and>
   success_message (JObj []) act = ''Server '' @ action_name act @ ''d successfully'' \<and>
   success_message JUndefined act = ''Server '' @ action_name act @ ''d successfully''"
proof -
  have run: "handleAction f srv act st =
     (case f (server_name srv) act of
        Resolved result \<Rightarrow>
          Returned (st\<lparr>loading := None,
                       panel_effects := panel_effects st @
                         [ToastSuccess (success_message result act)]\<rparr>)
      | Rejected e \<Rightarrow>
          Returned (st\<lparr>loading := None,
                       panel_effects := panel_effects st @
                         [ConsoleError (''Failed to '' @ action_name act @ '' server:'') e,
                          ToastError (error_message e act)]\<rparr>)
      | Pending \<Rightarrow> Suspended (st\<lparr>loading := Some (action_name act)\<rparr>))" for f
    by (simp add: handleAction_def catching_def finally_do_def setLoading_def panel_emit_def
        split: settled.splits)
  have msg: "success_message (JObj [(''message'', JStr m)]) act = m"
    "success_message (JObj []) act = ''Server '' @ action_name act @ ''d successfully''"
    "success_message JUndefined act = ''Server '' @ action_name act @ ''d successfully''"
    by (simp_all add: success_message_def in_operator_def get_property_def)
  have timeout: "error_message (ErrorInstance ''timeout'') act = ''timeout''"
    by (simp add: error_message_def)
  show ?thesis
    by (simp add: run msg timeout state_of_def isActionDisabled_def falsy_string_def)
qed


section \<open>Properties of ServerFormModal\<close>

text \<open>
  C5: for form values whose transport is one of the three the form offers, the schema
  accepts the submission exactly when the name is not empty. No other field matters:
  with transport \<open>stdio\<close> and any command (empty or absent included), and with
  transport \<open>sse\<close> or \<open>streamable_http\<close> and any url, the same holds, and changing
  the description, url, command, args, flags or headers never changes the issues.
  Submitting then reaches the submit handler exactly when the name is not empty.
\<close>

theorem serverSchema_name_only:
  assumes "form_transport d \<in> set [''sse'', ''streamable_http'', ''stdio'']"
  shows "(serverSchema d = []) = (form_name d \<noteq> []) \<and>
         (serverSchema (d\<lparr>form_transport := ''stdio'', form_command := c\<rparr>) = [])
            = (form_name d \<noteq> []) \<and>
         (serverSchema (d\<lparr>form_transport := ''sse'', form_url := u\<rparr>) = [])
            = (form_name d \<noteq> []) \<and>
         (serverSchema (d\<lparr>form_transport := ''streamable_http'', form_url := u\<rparr>) = [])
            = (form_name d \<noteq> []) \<and>
         serverSchema (d\<lparr>form_description := ds, form_url := u, form_command := c,
              form_args := a, form_requiresOauth := ro, form_isPublic := ip,
              form_headers := hs\<rparr>) = serverSchema d \<and>
         (handleSubmit onSubmit m (st\<lparr>form_values := d\<rparr>) =
            Inr (handleFormSubmit onSubmit m d (st\<lparr>form_values := d\<rparr>)))
            = (form_name d \<noteq> [])"
proof -
  have name: "(serverSchema x = []) = (form_name x \<noteq> [])"
    if "form_transport x \<in> set [''sse'', ''streamable_http'', ''stdio'']" for x
    using that by (auto simp add: serverSchema_def)
  have submit: "(handleSubmit onSubmit m (st\<lparr>form_values := d\<rparr>) =
            Inr (handleFormSubmit onSubmit m d (st\<lparr>form_values := d\<rparr>)))
            = (serverSchema d = [])"
    by (simp add: handleSubmit_def split: list.splits)
  show ?thesis
    unfolding submit using assms by (simp add: name) (simp add: serverSchema_def)
qed

theorem serverSchema_name_only_witness:
  "form_transport
     (default_values\<lparr>form_name := ''local'', form_transport := ''stdio'',
        form_command := Some []\<rparr>) \<in> set [''sse'', ''streamable_http'', ''stdio''] \<and>
   serverSchema
     (default_values\<lparr>form_name := ''local'', form_transport := ''stdio'',
        form_command := Some []\<rparr>) = [] \<and>
   serverSchema
     (default_values\<lparr>form_transport := ''stdio'', form_command := Some ''python''\<rparr>) \<noteq> []"
  using serverSchema_name_only
      [of "default_values\<lparr>form_name := ''local'', form_transport := ''stdio'',
             form_command := Some []\<rparr>"]
    serverSchema_name_only
      [of "default_values\<lparr>form_transport := ''stdio'', form_command := Some ''python''\<rparr>"]
  by (simp add: default_values_def)

text \<open>The args text the form gets for a list of strings reads back as that list.\<close>

lemma args_text_reads_back:
  assumes "args_text (JArr (map JStr ss)) = Some t"
  shows "JSON_parse_ref t = Inr (JArr (map JStr ss))"
proof -
  have "printable (JArr (map JStr ss))"
    by (simp add: list_all_iff)
  moreover have "JSON_stringify (JArr (map JStr ss)) = Some t"
    using assms by (simp add: args_text_def)
  ultimately show ?thesis
    by (rule JSON_roundtrip)
qed

text \<open>
  C6: opening the dialog in edit mode with a server record sets the form's name,
  description, transport, url, command, OAuth flag and public flag from the record (an
  absent text is the empty text, an absent flag is false) and the args to the record's
  args when they are a string, to their JSON text when they are an array or an object
  (for example \<open>["-m","my_module"]\<close>), and to the empty text when the record has none.
  The headers field is the empty list whatever the record's headers are, so no header
  row is rendered. Opening in either mode collapses the headers disclosure.
\<close>

theorem open_effect_edit:
  \<open>form_values (open_effect True Edit (Some r) st) =
     \<lparr>form_name = server_name r,
      form_description = Some (case server_description r of None \<Rightarrow> [] | Some s \<Rightarrow> s),
      form_transport = server_transport r,
      form_url = Some (case server_url r of None \<Rightarrow> [] | Some s \<Rightarrow> s),
      form_command = Some (case server_command r of None \<Rightarrow> [] | Some s \<Rightarrow> s),
      form_args =
        (case server_args r of
           JStr s \<Rightarrow> Some s
         | JArr xs \<Rightarrow> JSON_stringify (JArr xs)
         | JObj kvs \<Rightarrow> JSON_stringify (JObj kvs)
         | JBool b \<Rightarrow> if b then Some ''true'' else Some []
         | JNum n \<Rightarrow> if n = 0 then Some [] else Some (show_int n)
         | JNull \<Rightarrow> Some []
         | JUndefined \<Rightarrow> Some []),
      form_requiresOauth = Some (case server_requiresOauth2 r of None \<Rightarrow> False | Some b \<Rightarrow> b),
      form_isPublic = Some (case server_isPublic r of None \<Rightarrow> False | Some b \<Rightarrow> b),
      form_headers = Some []\<rparr> \<and>
   header_rows (open_effect True Edit (Some (r\<lparr>server_headers := h\<rparr>)) st) = [] \<and>
   transportType (open_effect True Edit (Some r) st) = server_transport r \<and>
   showHeaders (open_effect True m srv st) = False \<and>
   JSON_stringify (JArr [JStr ''-m'', JStr ''my_module'']) = Some ''["-m","my_module"]''\<close>
proof -
  have ex: \<open>JSON_stringify (JArr [JStr ''-m'', JStr ''my_module'']) = Some ''["-m","my_module"]''\<close>
    by code_simp
  have sh: "showHeaders (open_effect True m srv st) = False"
    by (cases m; cases srv) (simp_all add: open_effect_def)
  have "form_args (edit_values r) =
        (case server_args r of
           JStr s \<Rightarrow> Some s
         | JArr xs \<Rightarrow> JSON_stringify (JArr xs)
         | JObj kvs \<Rightarrow> JSON_stringify (JObj kvs)
         | JBool b \<Rightarrow> if b then Some ''true'' else Some []
         | JNum n \<Rightarrow> if n = 0 then Some [] else Some (show_int n)
         | JNull \<Rightarrow> Some []
         | JUndefined \<Rightarrow> Some [])"
    by (cases "server_args r") (simp_all add: edit_values_def args_text_def)
  then show ?thesis
    using ex sh
    by (simp add: open_effect_def edit_values_def header_rows_def or_empty_def or_false_def)
qed

text \<open>
  C8: \<open>handleFormSubmit\<close> returns for every settled outcome of the submit collaborator.
  After a resolution it has called \<open>onClose\<close> and then added the success notification,
  \<open>added\<close> in add mode and \<open>updated\<close> in edit mode. After a rejection it has not
  called \<open>onClose\<close>; it has logged the error and added the failure notification, whose
  text does not depend on the error. In every case the form values, the shown transport
  and the headers disclosure are what they were.
\<close>

theorem handleFormSubmit_outcomes:
  "handleFormSubmit onSubmit m d st =
     (case onSubmit d of
        Resolved u \<Rightarrow>
          Returned (st\<lparr>modal_effects := modal_effects st @
            [OnClose,
             ToastSuccess (if m = Add then ''Server added successfully''
                           else ''Server updated successfully'')]\<rparr>)
      | Rejected e \<Rightarrow>
          Returned (st\<lparr>modal_effects := modal_effects st @
            [ConsoleError ''Form submission error:'' e,
             ToastError (if m = Add then ''Failed to add server''
                         else ''Failed to update server'')]\<rparr>)
      | Pending \<Rightarrow> Suspended st) \<and>
   form_values (state_of (handleFormSubmit onSubmit m d st)) = form_values st \<and>
   showHeaders (state_of (handleFormSubmit onSubmit m d st)) = showHeaders st \<and>
   transportType (state_of (handleFormSubmit onSubmit m d st)) = transportType st"
proof -
  have run: "handleFormSubmit onSubmit m d st =
     (case onSubmit d of
        Resolved u \<Rightarrow>
          Returned (st\<lparr>modal_effects := modal_effects st @
            [OnClose,
             ToastSuccess (if m = Add then ''Server added successfully''
                           else ''Server updated successfully'')]\<rparr>)
      | Rejected e \<Rightarrow>
          Returned (st\<lparr>modal_effects := modal_effects st @
            [ConsoleError ''Form submission error:'' e,
             ToastError (if m = Add then ''Failed to add server''
                         else ''Failed to update server'')]\<rparr>)
      | Pending \<Rightarrow> Suspended st)"
    by (simp add: handleFormSubmit_def catching_def modal_emit_def split: settled.splits)
  show ?thesis
    unfolding run by (simp add: state_of_def split: settled.splits)
qed

end
